theory Spec2Isabelle
  imports Complex_Main
begin

section \<open>Python values used by the providers\<close>

text \<open>
  Strings are \<open>string\<close>: one \<open>char\<close> per code point, for the code points below 256
  (every string the modelled functions build is ASCII). Python integers are \<open>int\<close>.
  An exception is a value \<open>Inl e\<close> of the result type \<open>error + 'a\<close>.
\<close>

datatype error =
    ValueError | IndexError | KeyError | TypeError | AttributeError | NameError
  | NonEnumerableError | UnsupportedLocale

definition bindE :: "error + 'a \<Rightarrow> ('a \<Rightarrow> error + 'b) \<Rightarrow> error + 'b" where
  "bindE r f = (case r of Inl e \<Rightarrow> Inl e | Inr x \<Rightarrow> f x)"

text \<open>A comprehension whose element expression may raise stops at the first raise.\<close>

fun mapE :: "('a \<Rightarrow> error + 'b) \<Rightarrow> 'a list \<Rightarrow> error + 'b list" where
  "mapE f [] = Inr []"
| "mapE f (x # xs) =
     (case f x of
        Inl e \<Rightarrow> Inl e
      | Inr y \<Rightarrow> (case mapE f xs of Inl e \<Rightarrow> Inl e | Inr ys \<Rightarrow> Inr (y # ys)))"

definition is_ascii_digit :: "char \<Rightarrow> bool" where
  "is_ascii_digit c = (48 \<le> (of_char c :: nat) \<and> (of_char c :: nat) \<le> 57)"

text \<open>
  \<open>str.isdigit\<close> on one character: below code point 256 it holds for \<open>0\<close>..\<open>9\<close> and for
  the superscripts U+00B2, U+00B3 and U+00B9, which \<open>int()\<close> rejects.
\<close>

definition isdigit :: "char \<Rightarrow> bool" where
  "isdigit c = (is_ascii_digit c \<or> (of_char c :: nat) \<in> {178, 179, 185})"

text \<open>\<open>int(c)\<close> for a one-character string \<open>c\<close>.\<close>

definition py_int :: "char \<Rightarrow> error + int" where
  "py_int c = (if is_ascii_digit c then Inr (int (of_char c) - 48) else Inl ValueError)"

definition digit_char :: "nat \<Rightarrow> char" where
  "digit_char d = char_of (48 + d)"

text \<open>\<open>str(n)\<close> for an integer.\<close>

fun str_nat :: "nat \<Rightarrow> string" where
  "str_nat n = (if n < 10 then [digit_char n] else str_nat (n div 10) @ [digit_char (n mod 10)])"

declare str_nat.simps [simp del]

definition str_int :: "int \<Rightarrow> string" where
  "str_int i = (if i < 0 then CHR ''-'' # str_nat (nat (- i)) else str_nat (nat i))"

text \<open>
  The format \<open>f"{i:02d}"\<close>: padded with zeros to two characters (a negative number has
  two characters or more and gets none).
\<close>

definition fmt02d :: "int \<Rightarrow> string" where
  "fmt02d i = (let s = str_int i in replicate (2 - length s) CHR ''0'' @ s)"

definition ord :: "char \<Rightarrow> int" where
  "ord c = int (of_char c)"

definition chr :: "int \<Rightarrow> char" where
  "chr i = char_of (nat i)"

section \<open>shortcuts.py\<close>

definition luhn_double :: "int \<Rightarrow> int" where
  "luhn_double d = (let d2 = d * 2 in if d2 > 9 then d2 - 9 else d2)"

text \<open>
  The loop \<open>for i in range(len(digits) - 2, -1, -2)\<close>, which doubles \<open>digits[i]\<close> in place:
  \<open>i\<close> starts at \<open>len(digits) - 2\<close> and steps down by 2 while it is above \<open>-1\<close>.
\<close>

function luhn_loop :: "int \<Rightarrow> int list \<Rightarrow> int list" where
  "luhn_loop i digits =
     (if i > -1 then luhn_loop (i - 2) (digits[nat i := luhn_double (digits ! nat i)])
      else digits)"
  by pat_completeness auto
termination
  by (relation "measure (\<lambda>(i, digits). nat (i + 1))") auto

declare luhn_loop.simps [simp del]

definition luhn_checksum :: "string \<Rightarrow> error + string" where
  "luhn_checksum num =
     bindE (mapE py_int (filter isdigit num)) (\<lambda>digits.
       let digits' = luhn_loop (int (length digits) - 2) digits;
           total = sum_list digits';
           checksum = (10 - (total mod 10)) mod 10
       in Inr (str_int checksum))"

text \<open>
  The rule as the spec words it, to compare with the code: of the digits of the base, the
  check digit not among them, every digit at an odd distance from the check position is
  doubled, the rightmost one first.
\<close>

definition luhn_spec :: "string \<Rightarrow> error + string" where
  "luhn_spec num =
     bindE (mapE py_int (filter isdigit num)) (\<lambda>ds.
       let total = sum_list (map (\<lambda>(i, d). if even i then luhn_double d else d)
                                 (enumerate 0 (rev ds)))
       in Inr (str_int ((10 - (total mod 10)) mod 10)))"

section \<open>random.py\<close>

text \<open>
  Modelled from the spec: the generator of the standard library's \<open>random.Random\<close>, the base
  class of \<open>Random\<close>, is not part of the repository. Its state is a tape of raw draws and a
  read position; every primitive draw reads one cell and advances. An integer draw below
  \<open>n\<close> reduces the cell modulo \<open>n\<close> (the spec: "inclusive-inclusive integer draw", "uniform
  selection over a finite ordered sequence"), so every sequence of in-range results is the
  outcome of some tape.
\<close>

record rng =
  tape :: "nat \<Rightarrow> nat"
  pos :: nat

definition randbelow :: "nat \<Rightarrow> rng \<Rightarrow> nat \<times> rng" where
  "randbelow n r = (tape r (pos r) mod n, r\<lparr>pos := Suc (pos r)\<rparr>)"

text \<open>\<open>randint(a, b)\<close>, called below with \<open>a \<le> b\<close> only.\<close>

definition randint :: "int \<Rightarrow> int \<Rightarrow> rng \<Rightarrow> int \<times> rng" where
  "randint a b r = (let (k, r') = randbelow (nat (b - a + 1)) r in (a + int k, r'))"

text \<open>\<open>choice(seq)\<close> raises IndexError on an empty sequence.\<close>

definition choice :: "'a list \<Rightarrow> rng \<Rightarrow> error + ('a \<times> rng)" where
  "choice seq r =
     (if seq = [] then Inl IndexError
      else let (k, r') = randbelow (length seq) r in Inr (seq ! k, r'))"

text \<open>What a call returns or raises, without the state it leaves the generator in.\<close>

definition result_of :: "error + ('a \<times> rng) \<Rightarrow> error + 'a" where
  "result_of res = (case res of Inl e \<Rightarrow> Inl e | Inr (x, r) \<Rightarrow> Inr x)"

text \<open>\<open>[self.random.choice(seq) for _ in range(n)]\<close>, also \<open>choices(seq, k=n)\<close>.\<close>

fun choice_n :: "nat \<Rightarrow> 'a list \<Rightarrow> rng \<Rightarrow> error + ('a list \<times> rng)" where
  "choice_n 0 seq r = Inr ([], r)"
| "choice_n (Suc n) seq r =
     bindE (choice seq r) (\<lambda>(x, r').
       bindE (choice_n n seq r') (\<lambda>(xs, r''). Inr (x # xs, r'')))"

definition choices :: "'a list \<Rightarrow> nat \<Rightarrow> rng \<Rightarrow> error + ('a list \<times> rng)" where
  "choices population k r = choice_n k population r"

text \<open>\<open>[self.random.randint(a, b) for _ in range(n)]\<close>.\<close>

fun randint_n :: "nat \<Rightarrow> int \<Rightarrow> int \<Rightarrow> rng \<Rightarrow> int list \<times> rng" where
  "randint_n 0 a b r = ([], r)"
| "randint_n (Suc n) a b r =
     (let (x, r') = randint a b r; (xs, r'') = randint_n n a b r' in (x # xs, r''))"

definition ascii_uppercase :: string where
  "ascii_uppercase = ''ABCDEFGHIJKLMNOPQRSTUVWXYZ''"

definition digits :: string where
  "digits = ''0123456789''"

text \<open>
  \<open>Random.generate_string_by_mask\<close>: a character of the mask equal to \<open>char\<close> becomes a drawn
  upper-case letter, one equal to \<open>digit\<close> a drawn digit, any other stays.
\<close>

fun generate_string_by_mask :: "string \<Rightarrow> string \<Rightarrow> string \<Rightarrow> rng \<Rightarrow> error + (string \<times> rng)" where
  "generate_string_by_mask [] char digit r = Inr ([], r)"
| "generate_string_by_mask (c # rest) char digit r =
     bindE (if [c] = char then choice ascii_uppercase r
            else if [c] = digit then choice digits r
            else Inr (c, r)) (\<lambda>(x, r').
       bindE (generate_string_by_mask rest char digit r') (\<lambda>(xs, r''). Inr (x # xs, r'')))"

text \<open>
  Floats are modelled by exact rationals: the model agrees with the code where every
  floating-point operation of the run is exact, as at the inputs evaluated below.
  \<open>random()\<close> returns a multiple of \<open>2^-53\<close> in \<open>[0, 1)\<close>.
\<close>

definition random_unit :: "rng \<Rightarrow> rat \<times> rng" where
  "random_unit r = (of_int (int (tape r (pos r) mod 2 ^ 53)) / 2 ^ 53, r\<lparr>pos := Suc (pos r)\<rparr>)"

text \<open>\<open>round(x, ndigits)\<close>: to the nearest multiple of \<open>10^-ndigits\<close>, ties to even.\<close>

definition py_round :: "rat \<Rightarrow> nat \<Rightarrow> rat" where
  "py_round x ndigits =
     (let y = x * 10 ^ ndigits; f = \<lfloor>y\<rfloor>; d = y - of_int f;
          n = (if d < 1 / 2 then f else if 1 / 2 < d then f + 1 else if even f then f else f + 1)
      in of_int n / 10 ^ ndigits)"

definition uniform :: "rat \<Rightarrow> rat \<Rightarrow> nat \<Rightarrow> rng \<Rightarrow> rat \<times> rng" where
  "uniform a b precision r =
     (let (u, r') = random_unit r in (py_round (a + (b - a) * u) precision, r'))"

text \<open>
  The loop of \<open>weighted_choice\<close> over \<open>choices.items()\<close> (a dict iterates in insertion order:
  an association list). Leaving the loop without a \<open>return\<close> makes the function return
  \<open>None\<close>.
\<close>

fun weighted_walk :: "rat \<Rightarrow> ('k \<times> rat) list \<Rightarrow> 'k option" where
  "weighted_walk r [] = None"
| "weighted_walk r ((key, weight) # rest) =
     (let r' = r - weight in if r' \<le> 0 then Some key else weighted_walk r' rest)"

definition weighted_choice :: "('k \<times> rat) list \<Rightarrow> rng \<Rightarrow> error + ('k option \<times> rng)" where
  "weighted_choice items r =
     (if items = [] then Inl ValueError
      else let total = sum_list (map snd items);
               (x, r') = uniform 0 total 15 r
           in Inr (weighted_walk x items, r'))"

text \<open>
  Attribute lookup on an instance of \<open>Random\<close>: the methods the class body defines, then the
  names inherited from the standard library's \<open>random.Random\<close> (listed from the Python
  documentation of that class).
\<close>

datatype random_method =
    Randints | Generate_string | Generate_string_by_mask | Uniform | Randbytes
  | Weighted_choice | Choice_enum_item | Inherited string

definition Random_methods :: "(string \<times> random_method) list" where
  "Random_methods =
     [(''randints'', Randints), (''_generate_string'', Generate_string),
      (''generate_string_by_mask'', Generate_string_by_mask), (''uniform'', Uniform),
      (''randbytes'', Randbytes), (''weighted_choice'', Weighted_choice),
      (''choice_enum_item'', Choice_enum_item)]"

definition stdlib_Random_names :: "string list" where
  "stdlib_Random_names =
     [''seed'', ''getstate'', ''setstate'', ''getrandbits'', ''randrange'', ''randint'',
      ''choice'', ''choices'', ''shuffle'', ''sample'', ''random'', ''triangular'',
      ''betavariate'', ''binomialvariate'', ''expovariate'', ''gammavariate'', ''gauss'',
      ''lognormvariate'', ''normalvariate'', ''vonmisesvariate'', ''paretovariate'',
      ''weibullvariate'', ''VERSION'', ''gauss_next'', ''_randbelow'']"

definition getattr_Random :: "string \<Rightarrow> error + random_method" where
  "getattr_Random name =
     (case map_of Random_methods name of
        Some m \<Rightarrow> Inr m
      | None \<Rightarrow> if name \<in> set stdlib_Random_names then Inr (Inherited name)
                else Inl AttributeError)"

text \<open>
  A call \<open>m(mask=mask)\<close> of a method of \<open>Random\<close>: only \<open>generate_string_by_mask\<close> has a
  parameter named \<open>mask\<close>; any other method rejects the keyword with a TypeError.
\<close>

definition call_with_mask :: "random_method \<Rightarrow> string \<Rightarrow> rng \<Rightarrow> error + (string \<times> rng)" where
  "call_with_mask m msk r =
     (case m of
        Generate_string_by_mask \<Rightarrow> generate_string_by_mask msk ''@'' ''#'' r
      | _ \<Rightarrow> Inl TypeError)"

text \<open>The expression \<open>self.random.custom_code(mask=mask)\<close> of the providers.\<close>

definition custom_code :: "string \<Rightarrow> rng \<Rightarrow> error + (string \<times> rng)" where
  "custom_code msk r = bindE (getattr_Random ''custom_code'') (\<lambda>m. call_with_mask m msk r)"


section \<open>providers/base.py\<close>

text \<open>
  The seed of a provider is the sentinel \<open>MissingSeed\<close>, Python's \<open>None\<close>, or a value.
  \<open>Random.seed\<close> belongs to the standard library: seeded with a value \<open>v\<close> the generator
  restarts on the tape \<open>mt v\<close>, where \<open>mt\<close> (the generator's algorithm) is a parameter;
  seeded with \<open>None\<close> or with no argument it restarts from the system's entropy and clock.
  The environment is what one run does not share with another: that entropy, the calendar
  year that \<open>datetime.now()\<close> reads, and the hexadecimal digits of the UUID that
  \<open>uuid.uuid4()\<close> hands out.
\<close>

datatype 'v seed = MissingSeed | NoneSeed | SeedValue 'v

record env =
  entropy :: "nat \<Rightarrow> nat"
  clock_year :: nat
  uuid4_hex :: string

definition Random_seed :: "('v \<Rightarrow> nat \<Rightarrow> nat) \<Rightarrow> env \<Rightarrow> 'v option \<Rightarrow> rng \<Rightarrow> rng" where
  "Random_seed mt e a r =
     (case a of None \<Rightarrow> \<lparr>tape = entropy e, pos = 0\<rparr> | Some v \<Rightarrow> \<lparr>tape = mt v, pos = 0\<rparr>)"

text \<open>
  An \<open>Enum\<close> class is the list of its members, each a name and a value. The argument of
  \<open>validate_enum\<close> is \<open>None\<close>, a member of some enum, or a string.
\<close>

type_synonym member = "string \<times> string"
type_synonym enum = "member list"

datatype item = NoneItem | Member member | Name string

definition choice_enum_item :: "enum \<Rightarrow> rng \<Rightarrow> error + (member \<times> rng)" where
  "choice_enum_item enum r = choice enum r"

definition validate_enum :: "item \<Rightarrow> enum \<Rightarrow> rng \<Rightarrow> error + (member \<times> rng)" where
  "validate_enum it enum r =
     (case it of
        NoneItem \<Rightarrow> choice_enum_item enum r
      | Member m \<Rightarrow> if m \<in> set enum then Inr (m, r) else Inl NonEnumerableError
      | Name n \<Rightarrow> (case find (\<lambda>m. fst m = n) enum of
                    Some m \<Rightarrow> Inr (m, r)
                  | None \<Rightarrow> Inl NonEnumerableError))"

text \<open>\<open>d[k]\<close> on a dict raises KeyError for a missing key.\<close>

definition getitem :: "('k \<times> 'v) list \<Rightarrow> 'k \<Rightarrow> error + 'v" where
  "getitem d k = (case map_of d k of None \<Rightarrow> Inl KeyError | Some v \<Rightarrow> Inr v)"

text \<open>
  The tables of \<open>mimesis.datasets\<close> and the enums of \<open>mimesis.enums\<close> that the modelled
  providers read are not among the sources: they are parameters.
\<close>

record datasets =
  ISBN_MASKS :: "(string \<times> string) list"
  ISBN_GROUPS :: "(string \<times> string) list"
  EAN_MASKS :: "(string \<times> string) list"
  IMEI_TACS :: "string list"
  CREDIT_CARD_NETWORKS :: "(string \<times> string list) list"
  ISBNFormat :: enum
  EANFormat :: enum
  CardType :: enum

text \<open>
  What the providers take from outside the sources: \<open>validate_locale\<close> of \<open>mimesis.locales\<close>
  (it returns the locale or raises), whether the JSON file of a locale and a provider name
  can be opened under \<open>DATADIR\<close>, the tables, and the methods \<open>lower\<close>, \<open>upper\<close> and
  \<open>capitalize\<close> of Python's \<open>str\<close>.
\<close>

datatype Locale = DEFAULT | DA | EN | IT | PT_BR | RU

record given =
  validate_locale :: "Locale \<Rightarrow> error + string"
  dataset_exists :: "string \<Rightarrow> string \<Rightarrow> bool"
  tables :: datasets
  EMAIL_DOMAINS :: "string list"
  USERNAMES :: "string list"
  lower :: "string \<Rightarrow> string"
  upper :: "string \<Rightarrow> string"
  capitalize :: "string \<Rightarrow> string"

text \<open>
  A provider instance: its class, the attributes \<open>random\<close> and \<open>seed\<close> of \<open>BaseProvider\<close>,
  and the attribute \<open>_current_year\<close>, which only \<open>RussiaSpecProvider.__init__\<close> sets.
\<close>

datatype provider_class =
    Code | Datetime | Payment | Person
  | BrazilSpecProvider | DenmarkSpecProvider | ItalySpecProvider | RussiaSpecProvider

record 'v provider =
  cls :: provider_class
  random :: rng
  seed :: "'v seed"
  current_year :: "string option"

definition has_seed :: "'v provider \<Rightarrow> bool" where
  "has_seed p = (seed p \<noteq> MissingSeed)"

definition reseed :: "('v \<Rightarrow> nat \<Rightarrow> nat) \<Rightarrow> env \<Rightarrow> 'v seed \<Rightarrow> 'v provider \<Rightarrow> 'v provider" where
  "reseed mt e s p =
     (case s of
        MissingSeed \<Rightarrow> p\<lparr>random := Random_seed mt e None (random p)\<rparr>
      | NoneSeed \<Rightarrow> p\<lparr>seed := s, random := Random_seed mt e None (random p)\<rparr>
      | SeedValue v \<Rightarrow> p\<lparr>seed := s, random := Random_seed mt e (Some v) (random p)\<rparr>)"

text \<open>
  \<open>BaseProvider.__init__\<close>. A \<open>random\<close> object passed in is used in whatever state it is;
  otherwise a new \<open>Random()\<close> is made, which starts from the system's entropy.
\<close>

definition BaseProvider_init ::
  "('v \<Rightarrow> nat \<Rightarrow> nat) \<Rightarrow> env \<Rightarrow> provider_class \<Rightarrow> 'v seed \<Rightarrow> rng option \<Rightarrow> 'v provider" where
  "BaseProvider_init mt e k s rnd =
     reseed mt e s
       \<lparr>cls = k,
        random = (case rnd of Some r \<Rightarrow> r | None \<Rightarrow> \<lparr>tape = entropy e, pos = 0\<rparr>),
        seed = s, current_year = None\<rparr>"

definition Meta_name :: "provider_class \<Rightarrow> string" where
  "Meta_name k =
     (case k of
        Code \<Rightarrow> ''code'' | Datetime \<Rightarrow> ''datetime'' | Payment \<Rightarrow> ''payment''
      | Person \<Rightarrow> ''person'' | BrazilSpecProvider \<Rightarrow> ''brazil_provider''
      | DenmarkSpecProvider \<Rightarrow> ''denmark_provider'' | ItalySpecProvider \<Rightarrow> ''italy_provider''
      | RussiaSpecProvider \<Rightarrow> ''russia_provider'')"

text \<open>
  \<open>_load_dataset\<close>: when the file cannot be opened, the handler evaluates the name
  \<open>UnsupportedLocale\<close>, which \<open>base.py\<close> does not import: the error that leaves is a
  NameError. None of the calls modelled below reads the dataset, which is not kept.
\<close>

definition load_dataset :: "given \<Rightarrow> string \<Rightarrow> provider_class \<Rightarrow> error + unit" where
  "load_dataset g loc k = (if dataset_exists g loc (Meta_name k) then Inr () else Inl NameError)"

text \<open>\<open>BaseDataProvider.__init__\<close>: the base initialiser, the locale, the dataset.\<close>

definition BaseDataProvider_init ::
  "('v \<Rightarrow> nat \<Rightarrow> nat) \<Rightarrow> given \<Rightarrow> env \<Rightarrow> provider_class \<Rightarrow> Locale \<Rightarrow> 'v seed \<Rightarrow> rng option
     \<Rightarrow> error + 'v provider" where
  "BaseDataProvider_init mt g e k loc s rnd =
     (let p = BaseProvider_init mt e k s rnd in
      bindE (validate_locale g loc) (\<lambda>l.
        bindE (load_dataset g l k) (\<lambda>_. Inr p)))"

text \<open>
  The constructors of the provider classes. \<open>Payment\<close> builds a \<open>Person\<close> and
  \<open>DenmarkSpecProvider\<close> a \<open>Datetime\<close> around their own \<open>random\<close> object, which that second
  initialiser seeds once more.
\<close>

definition construct ::
  "('v \<Rightarrow> nat \<Rightarrow> nat) \<Rightarrow> given \<Rightarrow> env \<Rightarrow> provider_class \<Rightarrow> 'v seed \<Rightarrow> error + 'v provider" where
  "construct mt g e k s =
     (case k of
        Code \<Rightarrow> Inr (BaseProvider_init mt e Code s None)
      | Datetime \<Rightarrow> BaseDataProvider_init mt g e Datetime DEFAULT s None
      | Payment \<Rightarrow>
          (let p = BaseProvider_init mt e Payment s None in
           bindE (BaseDataProvider_init mt g e Person EN (seed p) (Some (random p)))
             (\<lambda>person. Inr (p\<lparr>random := random person\<rparr>)))
      | Person \<Rightarrow> BaseDataProvider_init mt g e Person DEFAULT s None
      | BrazilSpecProvider \<Rightarrow> BaseDataProvider_init mt g e BrazilSpecProvider PT_BR s None
      | DenmarkSpecProvider \<Rightarrow>
          bindE (BaseDataProvider_init mt g e DenmarkSpecProvider DA s None) (\<lambda>p.
            bindE (BaseDataProvider_init mt g e Datetime DA s (Some (random p)))
              (\<lambda>datetime. Inr (p\<lparr>random := random datetime\<rparr>)))
      | ItalySpecProvider \<Rightarrow> BaseDataProvider_init mt g e ItalySpecProvider IT s None
      | RussiaSpecProvider \<Rightarrow>
          bindE (BaseDataProvider_init mt g e RussiaSpecProvider RU s None) (\<lambda>p.
            Inr (p\<lparr>current_year := Some (str_int (int (clock_year e)))\<rparr>)))"

section \<open>providers/code.py\<close>

definition calculate_check_digit :: "string \<Rightarrow> error + string" where
  "calculate_check_digit issn =
     bindE (mapE (\<lambda>(i, digit). bindE (py_int digit) (\<lambda>d. Inr ((8 - int i) * d)))
              (enumerate 0 (filter (\<lambda>c. c \<noteq> CHR ''-'') issn))) (\<lambda>terms.
       let total = sum_list terms;
           check = (11 - (total mod 11)) mod 11
       in Inr (if check = 10 then ''X'' else str_int check))"

definition issn :: "string \<Rightarrow> rng \<Rightarrow> error + (string \<times> rng)" where
  "issn msk r =
     bindE (custom_code msk r) (\<lambda>(issn, r').
       bindE (calculate_check_digit issn) (\<lambda>check_digit. Inr (issn @ check_digit, r')))"

definition calculate_isbn_check_digit :: "string \<Rightarrow> error + string" where
  "calculate_isbn_check_digit isbn =
     bindE (mapE (\<lambda>(i, x). bindE (if x = CHR ''X'' then Inr 10 else py_int x)
                              (\<lambda>v. Inr (v * (10 - int i))))
              (enumerate 0 isbn)) (\<lambda>terms.
       let total = sum_list terms;
           check = (11 - (total mod 11)) mod 11
       in Inr (if check = 10 then ''X'' else str_int check))"

text \<open>
  The rule as C8 words it, to compare with the code: over the ordered digits the weights
  descend from the number of digits down to 1.
\<close>

definition isbn_spec :: "string \<Rightarrow> error + string" where
  "isbn_spec base =
     bindE (mapE (\<lambda>(i, x). bindE (if x = CHR ''X'' then Inr 10 else py_int x)
                              (\<lambda>v. Inr (v * (int (length base) - int i))))
              (enumerate 0 base)) (\<lambda>terms.
       let total = sum_list terms;
           check = (11 - (total mod 11)) mod 11
       in Inr (if check = 10 then ''X'' else str_int check))"

text \<open>The value \<open>10 if x == 'X' else int(x)\<close> of a character that is a digit or \<open>X\<close>.\<close>

definition isbn_char_value :: "char \<Rightarrow> int" where
  "isbn_char_value c = (if c = CHR ''X'' then 10 else int (of_char c) - 48)"

definition isbn :: "datasets \<Rightarrow> item \<Rightarrow> string \<Rightarrow> rng \<Rightarrow> error + (string \<times> rng)" where
  "isbn ds fmt locale r =
     bindE (validate_enum fmt (ISBNFormat ds) r) (\<lambda>(fmt, r1).
       bindE (getitem (ISBN_MASKS ds) (snd fmt)) (\<lambda>msk.
         bindE (case map_of (ISBN_GROUPS ds) locale of
                  Some grp \<Rightarrow>
                    bindE (custom_code (drop 1 msk) r1) (\<lambda>(code, r2). Inr (grp @ code, r2))
                | None \<Rightarrow> custom_code msk r1) (\<lambda>(isbn, r2).
           bindE (calculate_isbn_check_digit isbn) (\<lambda>check_digit.
             Inr (isbn @ check_digit, r2)))))"

definition ean :: "datasets \<Rightarrow> item \<Rightarrow> rng \<Rightarrow> error + (string \<times> rng)" where
  "ean ds fmt r =
     bindE (validate_enum fmt (EANFormat ds) r) (\<lambda>(fmt, r1).
       bindE (getitem (EAN_MASKS ds) (snd fmt)) (\<lambda>msk.
         bindE (custom_code (butlast msk) r1) (\<lambda>(ean, r2).
           bindE (luhn_checksum ean) (\<lambda>check_digit. Inr (ean @ check_digit, r2)))))"

definition imei :: "datasets \<Rightarrow> rng \<Rightarrow> error + (string \<times> rng)" where
  "imei ds r =
     bindE (choice (IMEI_TACS ds) r) (\<lambda>(tac, r1).
       bindE (custom_code ''######'' r1) (\<lambda>(serial, r2).
         let imei = tac @ serial in
         bindE (luhn_checksum imei) (\<lambda>check_digit. Inr (imei @ check_digit, r2))))"

definition pin :: "string \<Rightarrow> rng \<Rightarrow> error + (string \<times> rng)" where
  "pin msk r = custom_code msk r"

section \<open>providers/payment.py\<close>

text \<open>\<open>sep.join(parts)\<close>.\<close>

fun join :: "string \<Rightarrow> string list \<Rightarrow> string" where
  "join sep [] = []"
| "join sep [x] = x"
| "join sep (x # y # ys) = x @ sep @ join sep (y # ys)"

definition credit_card_number :: "datasets \<Rightarrow> item \<Rightarrow> rng \<Rightarrow> error + (string \<times> rng)" where
  "credit_card_number ds card_type r =
     bindE (validate_enum card_type (CardType ds) r) (\<lambda>(card_type, r1).
       bindE (getitem (CREDIT_CARD_NETWORKS ds) (snd card_type)) (\<lambda>prefixes.
         bindE (choice prefixes r1) (\<lambda>(prefix, r2).
           bindE (choice_n (14 - length prefix) digits r2) (\<lambda>(drawn, r3).
             let number = prefix @ drawn in
             bindE (luhn_checksum number) (\<lambda>check.
               let number = number @ check in
               Inr (join '' '' (map (\<lambda>i. take 4 (drop i number)) [0, 4, 8, 12]), r3))))))"


section \<open>builtins/pt_br.py\<close>

definition get_verifying_digit_cpf :: "int list \<Rightarrow> int \<Rightarrow> int" where
  "get_verifying_digit_cpf cpf weight =
     (let total = sum_list (map (\<lambda>(i, digit). digit * (weight - int i)) (enumerate 0 cpf));
          remainder = total mod 11
      in if remainder < 2 then 0 else 11 - remainder)"

definition cpf :: "bool \<Rightarrow> rng \<Rightarrow> string \<times> rng" where
  "cpf with_mask r =
     (let (cpf, r') = randint_n 9 0 9 r;
          cpf = cpf @ [get_verifying_digit_cpf cpf 10];
          cpf = cpf @ [get_verifying_digit_cpf cpf 11]
      in (if with_mask
          then str_int (cpf ! 0) @ str_int (cpf ! 1) @ str_int (cpf ! 2) @ ''.'' @
               str_int (cpf ! 3) @ str_int (cpf ! 4) @ str_int (cpf ! 5) @ ''.'' @
               str_int (cpf ! 6) @ str_int (cpf ! 7) @ str_int (cpf ! 8) @ ''-'' @
               str_int (cpf ! 9) @ str_int (cpf ! 10)
          else concat (map str_int cpf), r'))"

section \<open>providers/date.py\<close>

record date =
  year :: int
  month :: int
  day :: int

text \<open>
  \<open>Datetime.date(start, end)\<close>: the year is \<open>self.year(start, end)\<close>, a \<open>randint\<close>. The
  constructor \<open>date(year, month, day)\<close> of the standard library raises ValueError for a year
  outside 1..9999; the month and the day drawn here are always valid.
\<close>

definition Datetime_date :: "int \<Rightarrow> int \<Rightarrow> rng \<Rightarrow> error + (date \<times> rng)" where
  "Datetime_date start end r =
     (let (y, r1) = randint start end r;
          (m, r2) = randint 1 12 r1;
          (d, r3) = randint 1 28 r2
      in if 1 \<le> y \<and> y \<le> 9999 then Inr (\<lparr>year = y, month = m, day = d\<rparr>, r3)
         else Inl ValueError)"

section \<open>builtins/da.py\<close>

definition checksum_factors :: "int list" where
  "checksum_factors = [4, 3, 2, 7, 6, 5, 4, 3, 2]"

definition calculate_checksum :: "string \<Rightarrow> error + int" where
  "calculate_checksum cpr_nr_no_checksum =
     bindE (mapE (\<lambda>(digit, factor). bindE (py_int digit) (\<lambda>d. Inr (d * factor)))
              (zip cpr_nr_no_checksum checksum_factors)) (\<lambda>products.
       let sum_without_checksum = sum_list products;
           checksum = 11 - (sum_without_checksum mod 11)
       in Inr (if checksum = 11 then 0 else checksum))"

text \<open>
  The loop \<open>while True\<close> of \<open>_generate_serial_checksum\<close> draws a serial until its checksum is
  not 10. Nothing bounds the number of rounds: a run that never leaves the loop is \<open>None\<close>.
\<close>

partial_function (option) generate_serial_checksum ::
  "string \<Rightarrow> rng \<Rightarrow> (error + ((string \<times> int) \<times> rng)) option" where
  "generate_serial_checksum cpr_century r =
     (case randint_n 3 0 9 r of (drawn, r') \<Rightarrow>
        (case calculate_checksum (cpr_century @ concat (map str_int drawn)) of
           Inl e \<Rightarrow> Some (Inl e)
         | Inr checksum \<Rightarrow>
             if checksum \<noteq> 10 then Some (Inr ((concat (map str_int drawn), checksum), r'))
             else generate_serial_checksum cpr_century r'))"

declare generate_serial_checksum.simps [code]

definition cpr :: "rng \<Rightarrow> (error + (string \<times> rng)) option" where
  "cpr r =
     (case Datetime_date 1900 2099 r of
        Inl e \<Rightarrow> Some (Inl e)
      | Inr (birth_date, r1) \<Rightarrow>
          (let dd = fmt02d (day birth_date);
               mm = fmt02d (month birth_date);
               yy = (let s = str_int (year birth_date) in drop (length s - 2) s);
               cpr_century = dd @ mm @ yy;
               cpr_century = (if year birth_date \<ge> 2000 then dd @ mm @ yy else cpr_century)
           in case generate_serial_checksum cpr_century r1 of
                None \<Rightarrow> None
              | Some (Inl e) \<Rightarrow> Some (Inl e)
              | Some (Inr ((serial_number, checksum), r2)) \<Rightarrow>
                  Some (Inr (cpr_century @ serial_number @ str_int checksum, r2))))"

section \<open>builtins/it.py\<close>

datatype Gender = FEMALE | MALE

text \<open>\<open>xs[i]\<close> on a list: a negative index counts from the end, out of range raises.\<close>

definition py_index :: "'a list \<Rightarrow> int \<Rightarrow> error + 'a" where
  "py_index xs i =
     (if 0 \<le> i \<and> i < int (length xs) then Inr (xs ! nat i)
      else if i < 0 \<and> - i \<le> int (length xs) then Inr (xs ! nat (int (length xs) + i))
      else Inl IndexError)"

text \<open>The slice \<open>xs[::2]\<close>; \<open>xs[1::2]\<close> is the same slice of \<open>drop 1 xs\<close>.\<close>

fun slice_step2 :: "'a list \<Rightarrow> 'a list" where
  "slice_step2 [] = []"
| "slice_step2 [x] = [x]"
| "slice_step2 (x # y # xs) = x # slice_step2 xs"

definition remap_table :: "int list" where
  "remap_table = [1, 0, 5, 7, 9, 13, 15, 17, 19, 21]"

text \<open>The element expressions of the two sums of \<open>fiscal_code\<close>.\<close>

definition direct_value :: "char \<Rightarrow> error + int" where
  "direct_value c = (if isdigit c then py_int c else Inr (ord c - 55))"

definition remap_value :: "char \<Rightarrow> error + int" where
  "remap_value c =
     (if isdigit c then bindE (py_int c) (\<lambda>k. py_index remap_table k)
      else py_index remap_table (ord c - 65))"

definition fiscal_code :: "Gender option \<Rightarrow> rng \<Rightarrow> error + (string \<times> rng)" where
  "fiscal_code gender r =
     bindE (choices ascii_uppercase 3 r) (\<lambda>(surname, r1).
       bindE (choices ascii_uppercase 3 r1) (\<lambda>(name, r2).
         let (yr, r3) = randint 0 99 r2 in
         bindE (choice ''ABCDEHLMPRST'' r3) (\<lambda>(mon, r4).
           let (d, r5) = randint 1 31 r4;
               d = (if gender = Some FEMALE then d + 40 else d)
           in
           bindE (choices (ascii_uppercase @ digits) 4 r5) (\<lambda>(place, r6).
             let code = surname @ name @ fmt02d yr @ [mon] @ fmt02d d @ place in
             bindE (mapE direct_value (slice_step2 (drop 1 code))) (\<lambda>evens.
               bindE (mapE remap_value (slice_step2 code)) (\<lambda>odds.
                 let even_sum = sum_list evens;
                     odd_sum = sum_list odds;
                     check = chr ((even_sum + odd_sum) mod 26 + 65)
                 in Inr (code @ [check], r6)))))))"

text \<open>
  The check letter as C5 words it, to compare with the code: the characters at the even
  indices (from 0) contribute directly, those at the odd indices through the table. The
  claim lists no entries: the table is the one of the code.
\<close>

definition claimed_check_letter :: "string \<Rightarrow> error + char" where
  "claimed_check_letter code =
     bindE (mapE direct_value (slice_step2 code)) (\<lambda>evens.
       bindE (mapE remap_value (slice_step2 (drop 1 code))) (\<lambda>odds.
         Inr (chr ((sum_list evens + sum_list odds) mod 26 + 65))))"

section \<open>builtins/ru.py\<close>

text \<open>\<open>int(s)\<close> for a string of decimal digits, as the slices of \<open>str(year)\<close> are.\<close>

definition int_str :: "string \<Rightarrow> error + int" where
  "int_str s =
     (if s = [] then Inl ValueError
      else bindE (mapE py_int s) (\<lambda>ds. Inr (foldl (\<lambda>acc d. 10 * acc + d) 0 ds)))"

definition passport_series :: "int option \<Rightarrow> 'v provider \<Rightarrow> error + (string \<times> 'v provider)" where
  "passport_series yr p =
     bindE (case yr of
              None \<Rightarrow> (case current_year p of
                         None \<Rightarrow> Inl AttributeError
                       | Some cy \<Rightarrow> int_str (drop 2 cy))
            | Some y \<Rightarrow> Inr (y mod 100))
       (\<lambda>y. let (region, r') = randint 1 99 (random p)
            in Inr (fmt02d region @ '' '' @ fmt02d y, p\<lparr>random := r'\<rparr>))"

section \<open>providers/person.py\<close>

text \<open>\<open>randint(a, b)\<close> with bounds of the caller's: an empty range raises ValueError.\<close>

definition randint_checked :: "int \<Rightarrow> int \<Rightarrow> rng \<Rightarrow> error + (int \<times> rng)" where
  "randint_checked a b r = (if a \<le> b then Inr (randint a b r) else Inl ValueError)"

text \<open>The loop of \<open>username\<close> over the characters of the mask.\<close>

fun username_loop ::
  "given \<Rightarrow> string \<Rightarrow> int \<times> int \<Rightarrow> string \<Rightarrow> rng \<Rightarrow> error + (string \<times> rng)" where
  "username_loop g [] drange username r = Inr (username, r)"
| "username_loop g (char # rest) drange username r =
     (if char \<in> set ''CUl'' then
        bindE (choice (USERNAMES g) r) (\<lambda>(word, r').
          username_loop g rest drange
            (username @ (if char = CHR ''C'' then capitalize g word
                         else if char = CHR ''U'' then upper g word
                         else lower g word)) r')
      else if char = CHR ''d'' then
        bindE (randint_checked (fst drange) (snd drange) r) (\<lambda>(n, r').
          username_loop g rest drange (username @ str_int n) r')
      else username_loop g rest drange (username @ [char]) r)"

definition username ::
  "given \<Rightarrow> string option \<Rightarrow> int \<times> int \<Rightarrow> rng \<Rightarrow> error + (string \<times> rng)" where
  "username g msk drange r =
     bindE (case msk of
              None \<Rightarrow> choice [''C.l'', ''C_l'', ''C-l'', ''U.l'', ''U_l'', ''U-l''] r
            | Some m \<Rightarrow> Inr (m, r)) (\<lambda>(m, r').
       username_loop g m drange [] r')"

text \<open>
  \<open>email\<close>: with \<open>unique\<close> it refuses a provider that has a seed, and otherwise puts eight
  digits of a fresh UUID, which is no draw of the generator, after the name.
\<close>

definition email ::
  "given \<Rightarrow> env \<Rightarrow> string list option \<Rightarrow> bool \<Rightarrow> 'v provider \<Rightarrow> error + (string \<times> rng)" where
  "email g e domains unique p =
     (if unique \<and> has_seed p then Inl ValueError
      else
        let domains = (case domains of None \<Rightarrow> EMAIL_DOMAINS g | Some ds \<Rightarrow> ds) in
        bindE (choice domains (random p)) (\<lambda>(domain, r1).
          bindE (username g (Some ''l'') (1800, 2100) r1) (\<lambda>(name, r2).
            let name = lower g name in
            Inr (if unique then name @ take 8 (uuid4_hex e) @ ''@'' @ domain
                 else name @ ''@'' @ domain, r2))))"

section \<open>Generation sessions\<close>

text \<open>
  A session issues calls on one provider instance, each call starting from the generator
  state the previous one left. A method that the class of the instance does not have
  raises AttributeError; the two methods of \<open>Random\<close> are reached through the \<open>random\<close>
  attribute of any provider. A session ends at the first call that raises (the exception
  reaches the caller) and has no outcome if a call never returns.
\<close>

datatype call =
    Cpf bool
  | Cpr
  | Fiscal_code "Gender option"
  | Credit_card_number item
  | Pin string
  | Username "string option" "int \<times> int"
  | Email "string list option" bool
  | Passport_series "int option"
  | Mask_code string string string
  | Weighted "(string \<times> rat) list"

datatype outcome = Returned string | ReturnedNone | Raised error

fun offers :: "provider_class \<Rightarrow> call \<Rightarrow> bool" where
  "offers k (Cpf with_mask) = (k = BrazilSpecProvider)"
| "offers k Cpr = (k = DenmarkSpecProvider)"
| "offers k (Fiscal_code gender) = (k = ItalySpecProvider)"
| "offers k (Credit_card_number card_type) = (k = Payment)"
| "offers k (Pin msk) = (k = Code)"
| "offers k (Username msk drange) = (k = Person)"
| "offers k (Email domains unique) = (k = Person)"
| "offers k (Passport_series yr) = (k = RussiaSpecProvider)"
| "offers k (Mask_code msk char digit) = True"
| "offers k (Weighted items) = True"

definition lift_rng ::
  "'v provider \<Rightarrow> error + (string \<times> rng) \<Rightarrow> (error + (outcome \<times> 'v provider)) option" where
  "lift_rng p res =
     Some (case res of Inl e \<Rightarrow> Inl e | Inr (s, r') \<Rightarrow> Inr (Returned s, p\<lparr>random := r'\<rparr>))"

definition perform ::
  "given \<Rightarrow> env \<Rightarrow> call \<Rightarrow> 'v provider \<Rightarrow> (error + (outcome \<times> 'v provider)) option" where
  "perform g e c p =
     (if \<not> offers (cls p) c then Some (Inl AttributeError)
      else case c of
        Cpf with_mask \<Rightarrow> lift_rng p (Inr (cpf with_mask (random p)))
      | Cpr \<Rightarrow> (case cpr (random p) of None \<Rightarrow> None | Some res \<Rightarrow> lift_rng p res)
      | Fiscal_code gender \<Rightarrow> lift_rng p (fiscal_code gender (random p))
      | Credit_card_number card_type \<Rightarrow>
          lift_rng p (credit_card_number (tables g) card_type (random p))
      | Pin msk \<Rightarrow> lift_rng p (pin msk (random p))
      | Username msk drange \<Rightarrow> lift_rng p (username g msk drange (random p))
      | Email domains unique \<Rightarrow> lift_rng p (email g e domains unique p)
      | Passport_series yr \<Rightarrow>
          Some (case passport_series yr p of
                  Inl err \<Rightarrow> Inl err
                | Inr (s, p') \<Rightarrow> Inr (Returned s, p'))
      | Mask_code msk char digit \<Rightarrow> lift_rng p (generate_string_by_mask msk char digit (random p))
      | Weighted items \<Rightarrow>
          Some (case weighted_choice items (random p) of
                  Inl err \<Rightarrow> Inl err
                | Inr (k, r') \<Rightarrow>
                    Inr (case k of None \<Rightarrow> ReturnedNone | Some key \<Rightarrow> Returned key,
                         p\<lparr>random := r'\<rparr>)))"

fun session :: "given \<Rightarrow> env \<Rightarrow> call list \<Rightarrow> 'v provider \<Rightarrow> outcome list option" where
  "session g e [] p = Some []"
| "session g e (c # cs) p =
     (case perform g e c p of
        None \<Rightarrow> None
      | Some (Inl err) \<Rightarrow> Some [Raised err]
      | Some (Inr (out, p')) \<Rightarrow>
          (case session g e cs p' of None \<Rightarrow> None | Some outs \<Rightarrow> Some (out # outs)))"

text \<open>
  A run: one instance is constructed and the calls are issued on it. A constructor that
  raises ends the run.
\<close>

definition run ::
  "('v \<Rightarrow> nat \<Rightarrow> nat) \<Rightarrow> given \<Rightarrow> env \<Rightarrow> provider_class \<Rightarrow> 'v seed \<Rightarrow> call list
     \<Rightarrow> outcome list option" where
  "run mt g e k s calls =
     (case construct mt g e k s of
        Inl err \<Rightarrow> Some [Raised err]
      | Inr p \<Rightarrow> session g e calls p)"

section \<open>An installation for concrete runs\<close>

text \<open>
  The runs evaluated below take place where every locale is valid and every dataset can be
  opened, Visa numbers start with 4, and the only user name and e-mail domain are ASCII;
  on ASCII strings the three methods of \<open>str\<close> are these.
\<close>

definition ascii_lower :: "string \<Rightarrow> string" where
  "ascii_lower w =
     map (\<lambda>c. if c \<in> set ascii_uppercase then char_of (of_char c + (32 :: nat)) else c) w"

definition ascii_upper :: "string \<Rightarrow> string" where
  "ascii_upper w =
     map (\<lambda>c. if c \<in> set (ascii_lower ascii_uppercase) then char_of (of_char c - (32 :: nat)) else c) w"

definition ascii_capitalize :: "string \<Rightarrow> string" where
  "ascii_capitalize w = ascii_upper (take 1 w) @ ascii_lower (drop 1 w)"

definition installed :: given where
  "installed =
     \<lparr>validate_locale =
        (\<lambda>l. Inr (case l of DEFAULT \<Rightarrow> ''en'' | DA \<Rightarrow> ''da'' | EN \<Rightarrow> ''en'' | IT \<Rightarrow> ''it''
                   | PT_BR \<Rightarrow> ''pt-br'' | RU \<Rightarrow> ''ru'')),
      dataset_exists = (\<lambda>l n. True),
      tables =
        \<lparr>ISBN_MASKS = [], ISBN_GROUPS = [], EAN_MASKS = [], IMEI_TACS = [],
         CREDIT_CARD_NETWORKS = [(''Visa'', [''4''])], ISBNFormat = [], EANFormat = [],
         CardType = [(''VISA'', ''Visa'')]\<rparr>,
      EMAIL_DOMAINS = [''example.org''],
      USERNAMES = [''Wolf''],
      lower = ascii_lower, upper = ascii_upper, capitalize = ascii_capitalize\<rparr>"

section \<open>The Luhn check digit\<close>

lemma luhn_loop_length: "length (luhn_loop i ds) = length ds"
  by (induction i ds rule: luhn_loop.induct) (subst luhn_loop.simps, simp)

text \<open>What the loop leaves at each index: the entries at \<open>i\<close>, \<open>i - 2\<close>, ... are doubled.\<close>

lemma luhn_loop_nth:
  "i < int (length ds) \<Longrightarrow> j < length ds \<Longrightarrow>
   luhn_loop i ds ! j =
     (if int j \<le> i \<and> (i - int j) mod 2 = 0 then luhn_double (ds ! j) else ds ! j)"
proof (induction i ds rule: luhn_loop.induct)
  case (1 i ds)
  show ?case
  proof (cases "i > -1")
    case False
    then show ?thesis by (subst luhn_loop.simps) simp
  next
    case True
    let ?ds = "ds[nat i := luhn_double (ds ! nat i)]"
    have step: "luhn_loop i ds = luhn_loop (i - 2) ?ds"
      using True by (subst luhn_loop.simps) simp
    have ih: "luhn_loop (i - 2) ?ds ! j =
        (if int j \<le> i - 2 \<and> (i - 2 - int j) mod 2 = 0 then luhn_double (?ds ! j) else ?ds ! j)"
      using "1.IH"[OF True] "1.prems" by simp
    show ?thesis
    proof (cases "j = nat i")
      case True
      with \<open>i > -1\<close> "1.prems" show ?thesis unfolding step ih by simp
    next
      case False
      have "(int j \<le> i - 2 \<and> (i - 2 - int j) mod 2 = 0) = (int j \<le> i \<and> (i - int j) mod 2 = 0)"
      proof -
        from False True have "int j \<noteq> i" by auto
        then show ?thesis by presburger
      qed
      with False show ?thesis unfolding step ih by simp
    qed
  qed
qed

lemma luhn_loop_sum:
  "sum_list (luhn_loop (int (length ds) - 2) ds) =
     (\<Sum>j<length ds. if j mod 2 = length ds mod 2 then luhn_double (ds ! j) else ds ! j)"
proof -
  let ?i = "int (length ds) - 2"
  have "sum_list (luhn_loop ?i ds) = (\<Sum>j<length ds. luhn_loop ?i ds ! j)"
    by (simp add: sum_list_sum_nth luhn_loop_length atLeast0LessThan)
  also have "\<dots> = (\<Sum>j<length ds. if j mod 2 = length ds mod 2 then luhn_double (ds ! j) else ds ! j)"
  proof (rule sum.cong)
    fix j assume "j \<in> {..<length ds}"
    then have j: "j < length ds" by simp
    have "(int j \<le> ?i \<and> (?i - int j) mod 2 = 0) = (j mod 2 = length ds mod 2)"
      using j by presburger
    then show "luhn_loop ?i ds ! j = (if j mod 2 = length ds mod 2 then luhn_double (ds ! j) else ds ! j)"
      using luhn_loop_nth[of ?i ds j] j by simp
  qed simp
  finally show ?thesis .
qed

lemma str_int_digit: "0 \<le> c \<Longrightarrow> c < 10 \<Longrightarrow> str_int c = [digit_char (nat c)]"
  by (simp add: str_int_def str_nat.simps)

text \<open>
  What the function returns, exactly: the digits doubled are those whose index has the
  parity of the number of digits, so the last digit is never among them.
\<close>

lemma luhn_checksum_doubled_parity:
  assumes "luhn_checksum num = Inr s"
  shows "\<exists>ds. mapE py_int (filter isdigit num) = Inr ds \<and>
           s = [digit_char (nat ((10 -
                 (\<Sum>j<length ds. if j mod 2 = length ds mod 2 then luhn_double (ds ! j)
                                   else ds ! j) mod 10) mod 10))]"
proof -
  from assms obtain ds where ds: "mapE py_int (filter isdigit num) = Inr ds"
    and s: "s = str_int ((10 - sum_list (luhn_loop (int (length ds) - 2) ds) mod 10) mod 10)"
    by (auto simp: luhn_checksum_def bindE_def Let_def split: sum.splits)
  let ?t = "\<Sum>j<length ds. if j mod 2 = length ds mod 2 then luhn_double (ds ! j) else ds ! j"
  have "s = [digit_char (nat ((10 - ?t mod 10) mod 10))]"
    unfolding s luhn_loop_sum by (rule str_int_digit) simp_all
  with ds show ?thesis by blast
qed

text \<open>
  C1: the docstring names the Luhn algorithm and the callers append the result to the base
  as its check digit, so the rightmost digit of the base is to be doubled, as the claim
  says. The loop starts at index \<open>len(digits) - 2\<close> and leaves that digit as it is. On the
  base \<open>4012888888188\<close> of the claim the function returns \<open>0\<close> where the rule gives \<open>6\<close>; on
  the base \<open>401288888888188\<close> of the Visa test number \<open>4012888888881881\<close> it returns \<open>5\<close>
  where the rule gives \<open>1\<close>.
\<close>

theorem luhn_checksum_skips_rightmost_digit:
  "luhn_checksum ''4012888888188'' = Inr ''0'' \<and> luhn_spec ''4012888888188'' = Inr ''6'' \<and>
   luhn_checksum ''401288888888188'' = Inr ''5'' \<and> luhn_spec ''401288888888188'' = Inr ''1''"
  by code_simp

section \<open>The providers of codes\<close>

lemma custom_code_fails: "custom_code msk r = Inl AttributeError"
  by (simp add: custom_code_def getattr_Random_def Random_methods_def stdlib_Random_names_def bindE_def)

lemma bindE_Inl: "bindE (Inl e) f = Inl e"
  by (simp add: bindE_def)

lemma validate_enum_errors:
  "validate_enum it enum r = Inl e \<Longrightarrow> e = IndexError \<or> e = NonEnumerableError"
  by (auto simp: validate_enum_def choice_enum_item_def choice_def Let_def
           split: item.splits if_splits option.splits prod.splits)

lemma getitem_errors: "getitem d k = Inl e \<Longrightarrow> e = KeyError"
  by (auto simp: getitem_def split: option.splits)

lemma choice_errors: "choice xs r = Inl e \<Longrightarrow> e = IndexError"
  by (auto simp: choice_def Let_def split: if_splits prod.splits)

text \<open>
  C2: an instance of \<open>Random\<close> has no attribute \<open>custom_code\<close> (its mask expansion is found
  under the name \<open>generate_string_by_mask\<close>), so \<open>issn\<close> and \<open>pin\<close> raise AttributeError for
  every mask and generator state, and \<open>isbn\<close>, \<open>ean\<close> and \<open>imei\<close> raise for every table,
  argument and generator state: that error, or an earlier one from the validation of the
  format, the lookup of the mask or the choice of a TAC. None of the five returns a string.
\<close>

theorem code_provider_calls_fail:
  "getattr_Random ''custom_code'' = Inl AttributeError \<and>
   getattr_Random ''generate_string_by_mask'' = Inr Generate_string_by_mask \<and>
   issn msk r = Inl AttributeError \<and>
   pin msk r = Inl AttributeError \<and>
   isbn ds fmt locale r \<in> Inl ` {AttributeError, NonEnumerableError, IndexError, KeyError} \<and>
   ean ds fmt r \<in> Inl ` {AttributeError, NonEnumerableError, IndexError, KeyError} \<and>
   imei ds r \<in> Inl ` {AttributeError, IndexError}"
proof -
  have a: "getattr_Random ''custom_code'' = Inl AttributeError"
    by (simp add: getattr_Random_def Random_methods_def stdlib_Random_names_def)
  have b: "getattr_Random ''generate_string_by_mask'' = Inr Generate_string_by_mask"
    by (simp add: getattr_Random_def Random_methods_def)
  have c: "issn msk r = Inl AttributeError"
    by (simp add: issn_def custom_code_fails bindE_Inl)
  have d: "pin msk r = Inl AttributeError"
    by (simp add: pin_def custom_code_fails)
  have e: "isbn ds fmt locale r \<in> Inl ` {AttributeError, NonEnumerableError, IndexError, KeyError}"
    by (auto simp: isbn_def bindE_def custom_code_fails
             split: sum.splits option.splits prod.splits
             dest: validate_enum_errors getitem_errors)
  have f: "ean ds fmt r \<in> Inl ` {AttributeError, NonEnumerableError, IndexError, KeyError}"
    by (auto simp: ean_def bindE_def custom_code_fails
             split: sum.splits option.splits prod.splits
             dest: validate_enum_errors getitem_errors)
  have g: "imei ds r \<in> Inl ` {AttributeError, IndexError}"
    by (auto simp: imei_def bindE_def custom_code_fails
             split: sum.splits option.splits prod.splits
             dest: choice_errors)
  from a b c d e f g show ?thesis by blast
qed

subsection \<open>The ISBN check digit\<close>

lemma isbn_terms:
  assumes "\<forall>c\<in>set xs. is_ascii_digit c \<or> c = CHR ''X''"
  shows "mapE (\<lambda>(i, x). bindE (if x = CHR ''X'' then Inr 10 else py_int x)
                              (\<lambda>v. Inr (v * (10 - int i)))) (enumerate n xs)
         = Inr (map (\<lambda>(i, x). isbn_char_value x * (10 - int i)) (enumerate n xs))"
  using assms
  by (induction xs arbitrary: n) (auto simp: bindE_def py_int_def isbn_char_value_def)

lemma sum_list_enumerate0:
  "sum_list (map (\<lambda>(i, x). f i x) (enumerate 0 xs)) = (\<Sum>i<length xs. f i (xs ! i))"
proof -
  have "map (\<lambda>(i, x). f i x) (enumerate 0 xs) = map (\<lambda>i. f i (xs ! i)) [0..<length xs]"
    by (rule nth_equalityI) (simp_all add: nth_enumerate_eq)
  then show ?thesis
    by (simp add: sum_list_sum_nth atLeast0LessThan)
qed

text \<open>
  What the function computes, for a base of any length: the character at index \<open>i\<close> has the
  weight \<open>10 - i\<close>, the weights of an ISBN-10, whose base has nine digits.
\<close>

lemma isbn_check_digit_weights:
  assumes "\<forall>c\<in>set base. is_ascii_digit c \<or> c = CHR ''X''"
  shows "calculate_isbn_check_digit base =
           Inr (let check = (11 - (\<Sum>i<length base. isbn_char_value (base ! i) * (10 - int i)) mod 11) mod 11
                in if check = 10 then ''X'' else str_int check)"
  unfolding calculate_isbn_check_digit_def isbn_terms[OF assms]
  using sum_list_enumerate0[of "\<lambda>i x. isbn_char_value x * (10 - int i)" base]
  by (simp add: bindE_def Let_def)

lemma isbn10_example: "calculate_isbn_check_digit ''030640615'' = Inr ''2''"
  by code_simp

text \<open>
  C8: \<open>isbn\<close> hands the bases of both formats to \<open>_calculate_isbn_check_digit\<close>, and on the
  twelve digits \<open>978030640615\<close> the weights of the code run from 10 down to 0 and -1, not
  from 12 down to 1: the total is 272 and the function returns \<open>3\<close>. With the weights of
  the claim the total is 370 and the same formula gives \<open>4\<close>. (The \<open>2\<close> of the claim is the
  check digit of the ISBN-10 base \<open>030640615\<close> of the same book.)
\<close>

theorem isbn_check_digit_978030640615:
  "calculate_isbn_check_digit ''978030640615'' = Inr ''3'' \<and>
   isbn_spec ''978030640615'' = Inr ''4''"
  by code_simp

section \<open>The weighted choice\<close>

lemma py_round_nearest:
  assumes "of_int n - 1 / 2 < x * 10 ^ k" and "x * 10 ^ k < of_int n + 1 / 2"
  shows "py_round x k = of_int n / 10 ^ k"
proof (cases "x * 10 ^ k < of_int n")
  case True
  have "\<lfloor>x * 10 ^ k\<rfloor> = n - 1"
    using assms True by (intro floor_unique) simp_all
  then show ?thesis
    using assms by (simp add: py_round_def Let_def)
next
  case False
  have "\<lfloor>x * 10 ^ k\<rfloor> = n"
    using assms False by (intro floor_unique) simp_all
  then show ?thesis
    using assms by (simp add: py_round_def Let_def)
qed

text \<open>The error is raised for the empty mapping and for no other.\<close>

lemma weighted_choice_raises_iff_empty:
  "(\<exists>e. weighted_choice items r = Inl e) \<longleftrightarrow> items = []"
  by (auto simp: weighted_choice_def Let_def split: prod.splits)

lemma weighted_walk_key: "weighted_walk x items = Some k \<Longrightarrow> k \<in> fst ` set items"
  by (induction x items rule: weighted_walk.induct) (auto simp: Let_def split: if_splits)

text \<open>A key that \<open>weighted_choice\<close> returns is a key of the mapping.\<close>

lemma weighted_choice_key:
  "weighted_choice items r = Inr (Some k, r') \<Longrightarrow> k \<in> fst ` set items"
  by (auto simp: weighted_choice_def Let_def split: if_splits prod.splits dest: weighted_walk_key)

lemma weighted_choice_single:
  assumes "random_unit r = (u, r')" and "py_round (0 + (w - 0) * u) 15 = x" and "\<not> x - w \<le> 0"
  shows "result_of (weighted_choice [(k, w)] r) = Inr None"
proof -
  have "uniform 0 w 15 r = (x, r')"
    unfolding uniform_def assms(1) using assms(2) by simp
  then have "weighted_choice [(k, w)] r = Inr (weighted_walk x [(k, w)], r')"
    unfolding weighted_choice_def by simp
  with assms(3) show ?thesis by (simp add: result_of_def)
qed

text \<open>
  C10: the draw is rounded to 15 decimals, which can lift it above the total weight, and
  the loop has no \<open>return\<close> after its last key. For the one-key mapping \<open>{'a': 2**-50}\<close> and
  \<open>random() = 0.75\<close> the draw rounds to \<open>1e-15\<close>, above the weight; for
  \<open>{'a': 0.9999999999999998}\<close> (that is \<open>1 - 2^-52\<close>) and the largest value
  \<open>1 - 2^-53\<close> of \<open>random()\<close> it rounds to \<open>1.0\<close>; for \<open>{'a': -1.0}\<close> and
  \<open>random() = 0.5\<close> the remainder is \<open>0.5\<close>. In each run the remainder stays positive, the
  loop ends, and the call returns \<open>None\<close>: no key, and no error. (In floating point the
  first product is exact and \<open>1e-15\<close> is the nearest double, the second product is rounded
  by \<open>2^-105\<close> before \<open>round\<close> gives exactly \<open>1.0\<close>, the third run is exact: the
  comparisons come out as here.)
\<close>

theorem weighted_choice_returns_None:
  "result_of (weighted_choice [(''a'', 1 / 2 ^ 50)] \<lparr>tape = (\<lambda>i. 3 * 2 ^ 51), pos = 0\<rparr>) = Inr None \<and>
   result_of (weighted_choice [(''a'', 1 - 1 / 2 ^ 52)] \<lparr>tape = (\<lambda>i. 2 ^ 53 - 1), pos = 0\<rparr>) = Inr None \<and>
   result_of (weighted_choice [(''a'', - 1)] \<lparr>tape = (\<lambda>i. 2 ^ 52), pos = 0\<rparr>) = Inr None"
proof (intro conjI)
  show "result_of (weighted_choice [(''a'', 1 / 2 ^ 50)] \<lparr>tape = (\<lambda>i. 3 * 2 ^ 51), pos = 0\<rparr>) = Inr None"
  proof (rule weighted_choice_single)
    show "random_unit \<lparr>tape = (\<lambda>i. 3 * 2 ^ 51), pos = 0\<rparr> = (3 / 4, \<lparr>tape = (\<lambda>i. 3 * 2 ^ 51), pos = Suc 0\<rparr>)"
      by (simp add: random_unit_def)
    show "py_round (0 + (1 / 2 ^ 50 - 0) * (3 / 4)) 15 = of_int 1 / 10 ^ 15"
      by (rule py_round_nearest) simp_all
    show "\<not> (of_int 1 / 10 ^ 15 - 1 / 2 ^ 50 \<le> (0::rat))" by simp
  qed
  show "result_of (weighted_choice [(''a'', 1 - 1 / 2 ^ 52)] \<lparr>tape = (\<lambda>i. 2 ^ 53 - 1), pos = 0\<rparr>) = Inr None"
  proof (rule weighted_choice_single)
    show "random_unit \<lparr>tape = (\<lambda>i. 2 ^ 53 - 1), pos = 0\<rparr> = (1 - 1 / 2 ^ 53, \<lparr>tape = (\<lambda>i. 2 ^ 53 - 1), pos = Suc 0\<rparr>)"
      by (simp add: random_unit_def)
    show "py_round (0 + (1 - 1 / 2 ^ 52 - 0) * (1 - 1 / 2 ^ 53)) 15 = of_int (10 ^ 15) / 10 ^ 15"
      by (rule py_round_nearest) simp_all
    show "\<not> (of_int (10 ^ 15) / 10 ^ 15 - (1 - 1 / 2 ^ 52) \<le> (0::rat))" by simp
  qed
  show "result_of (weighted_choice [(''a'', - 1)] \<lparr>tape = (\<lambda>i. 2 ^ 52), pos = 0\<rparr>) = Inr None"
  proof (rule weighted_choice_single)
    show "random_unit \<lparr>tape = (\<lambda>i. 2 ^ 52), pos = 0\<rparr> = (1 / 2, \<lparr>tape = (\<lambda>i. 2 ^ 52), pos = Suc 0\<rparr>)"
      by (simp add: random_unit_def)
    show "py_round (0 + (- 1 - 0) * (1 / 2)) 15 = of_int (- (5 * 10 ^ 14)) / 10 ^ 15"
      by (rule py_round_nearest) simp_all
    show "\<not> (of_int (- (5 * 10 ^ 14)) / 10 ^ 15 - (- 1) \<le> (0::rat))" by simp
  qed
qed

section \<open>Drawn digits\<close>

lemma randint_range:
  assumes "a \<le> b" and "randint a b r = (x, r')"
  shows "a \<le> x \<and> x \<le> b"
proof -
  have "tape r (pos r) mod nat (b - a + 1) < nat (b - a + 1)"
    using assms(1) by (intro mod_less_divisor) simp
  then have "int (tape r (pos r) mod nat (b - a + 1)) < b - a + 1"
    by (simp only: zless_nat_eq_int_zless)
  with assms show ?thesis
    by (auto simp: randint_def randbelow_def Let_def)
qed

lemma randint_n_props:
  "a \<le> b \<Longrightarrow> randint_n n a b r = (xs, r') \<Longrightarrow>
     length xs = n \<and> (\<forall>x\<in>set xs. a \<le> x \<and> x \<le> b)"
proof (induction n arbitrary: r xs r')
  case 0
  then show ?case by simp
next
  case (Suc n)
  obtain x r1 where x: "randint a b r = (x, r1)" by (cases "randint a b r")
  obtain ys r2 where ys: "randint_n n a b r1 = (ys, r2)" by (cases "randint_n n a b r1")
  from Suc.prems x ys have xs: "xs = x # ys" by simp
  from Suc.IH[OF Suc.prems(1) ys] randint_range[OF Suc.prems(1) x] xs
  show ?case by simp
qed

lemma of_char_digit_char: "d < 10 \<Longrightarrow> of_char (digit_char d) = 48 + d"
  by (simp add: digit_char_def)

lemma is_ascii_digit_digit_char: "d < 10 \<Longrightarrow> is_ascii_digit (digit_char d)"
  by (simp add: is_ascii_digit_def digit_char_def)

lemma is_ascii_digit_nat: "0 \<le> a \<Longrightarrow> a \<le> 9 \<Longrightarrow> is_ascii_digit (digit_char (nat a))"
  by (rule is_ascii_digit_digit_char) simp

lemma digit_value_digit_char: "0 \<le> a \<Longrightarrow> a \<le> 9 \<Longrightarrow> int (of_char (digit_char (nat a))) - 48 = a"
  by (simp add: digit_char_def)

section \<open>The Brazilian CPF\<close>

lemma verifying_digit_range:
  "0 \<le> get_verifying_digit_cpf ds w \<and> get_verifying_digit_cpf ds w \<le> 9"
proof -
  have "0 \<le> t mod 11 \<and> t mod 11 < 11" for t :: int by simp
  then show ?thesis
    unfolding get_verifying_digit_cpf_def Let_def
    by (smt (verit, best))
qed

lemma length9:
  assumes "length (xs :: 'a list) = 9"
  obtains a0 a1 a2 a3 a4 a5 a6 a7 a8 where "xs = [a0, a1, a2, a3, a4, a5, a6, a7, a8]"
  using assms by (auto simp: length_Suc_conv numeral_eq_Suc)

lemma not_digit_dot: "\<not> is_ascii_digit CHR ''.''" "\<not> is_ascii_digit CHR ''-''"
  by (simp_all add: is_ascii_digit_def)

text \<open>
  C7: in every string that \<open>cpf\<close> returns, with the mask or without, there are eleven
  digits; the 10th is the verifying digit of the first nine (weights descending from 10,
  remainder of the total modulo 11 below 2 gives 0, otherwise 11 minus the remainder), and
  the 11th is the same formula over the ten digits before it, with weights descending from
  11. With the mask the string has the form \<open>###.###.###-##\<close>.
\<close>

theorem cpf_check_digits:
  "let s = fst (cpf with_mask r);
       d = (\<lambda>i. int (of_char (filter is_ascii_digit s ! i)) - 48);
       check = (\<lambda>total. if total mod 11 < 2 then 0 else 11 - total mod 11)
   in length (filter is_ascii_digit s) = 11 \<and>
      d 9 = check (\<Sum>i<9. d i * (10 - int i)) \<and>
      d 10 = check (\<Sum>i<10. d i * (11 - int i)) \<and>
      (if with_mask
       then length s = 14 \<and> s ! 3 = CHR ''.'' \<and> s ! 7 = CHR ''.'' \<and> s ! 11 = CHR ''-''
       else length s = 11)"
proof -
  obtain ds r' where ds: "randint_n 9 0 9 r = (ds, r')" by (cases "randint_n 9 0 9 r")
  from randint_n_props[OF _ ds] have len: "length ds = 9" and rng: "\<forall>x\<in>set ds. 0 \<le> x \<and> x \<le> 9"
    by simp_all
  from len obtain a0 a1 a2 a3 a4 a5 a6 a7 a8 where l: "ds = [a0, a1, a2, a3, a4, a5, a6, a7, a8]"
    by (rule length9)
  define v1 where "v1 = get_verifying_digit_cpf [a0, a1, a2, a3, a4, a5, a6, a7, a8] 10"
  define v2 where "v2 = get_verifying_digit_cpf [a0, a1, a2, a3, a4, a5, a6, a7, a8, v1] 11"
  have v: "0 \<le> v1" "v1 \<le> 9" "0 \<le> v2" "v2 \<le> 9"
    using verifying_digit_range by (simp_all add: v1_def v2_def)
  define all where "all = [a0, a1, a2, a3, a4, a5, a6, a7, a8, v1, v2]"
  have a: "\<forall>x\<in>set all. 0 \<le> x \<and> x \<le> 9"
    using rng v by (simp add: all_def l)
  have s: "fst (cpf with_mask r) =
      (if with_mask
       then map (\<lambda>x. digit_char (nat x)) [a0, a1, a2] @ ''.'' @ map (\<lambda>x. digit_char (nat x)) [a3, a4, a5] @ ''.'' @
            map (\<lambda>x. digit_char (nat x)) [a6, a7, a8] @ ''-'' @ map (\<lambda>x. digit_char (nat x)) [v1, v2]
       else map (\<lambda>x. digit_char (nat x)) all)"
    using a by (simp add: cpf_def ds l v1_def[symmetric] v2_def[symmetric] Let_def all_def str_int_digit)
  have f: "filter is_ascii_digit (fst (cpf with_mask r)) = map (\<lambda>x. digit_char (nat x)) all"
    using a by (simp add: s all_def is_ascii_digit_nat not_digit_dot)
  have d: "int (of_char (filter is_ascii_digit (fst (cpf with_mask r)) ! i)) - 48 = all ! i" if "i < 11" for i
    using a that unfolding f by (simp add: all_def nth_Cons' digit_value_digit_char)
  have c1: "v1 = (let total = (\<Sum>i<9. all ! i * (10 - int i)) in if total mod 11 < 2 then 0 else 11 - total mod 11)"
    by (simp add: v1_def get_verifying_digit_cpf_def all_def lessThan_nat_numeral lessThan_Suc Let_def algebra_simps)
  have c2: "v2 = (let total = (\<Sum>i<10. all ! i * (11 - int i)) in if total mod 11 < 2 then 0 else 11 - total mod 11)"
    by (simp add: v2_def get_verifying_digit_cpf_def all_def lessThan_nat_numeral lessThan_Suc Let_def algebra_simps)
  have s1: "(\<Sum>i<9. (int (of_char (filter is_ascii_digit (fst (cpf with_mask r)) ! i)) - 48) * (10 - int i)) = (\<Sum>i<9. all ! i * (10 - int i))"
    by (rule sum.cong) (simp_all add: d)
  have s2: "(\<Sum>i<10. (int (of_char (filter is_ascii_digit (fst (cpf with_mask r)) ! i)) - 48) * (11 - int i)) = (\<Sum>i<10. all ! i * (11 - int i))"
    by (rule sum.cong) (simp_all add: d)
  have len: "length (filter is_ascii_digit (fst (cpf with_mask r))) = 11"
    by (simp add: f all_def)
  have fmt: "(if with_mask
       then length (fst (cpf with_mask r)) = 14 \<and> fst (cpf with_mask r) ! 3 = CHR ''.'' \<and> fst (cpf with_mask r) ! 7 = CHR ''.'' \<and> fst (cpf with_mask r) ! 11 = CHR ''-''
       else length (fst (cpf with_mask r)) = 11)"
    using s by (cases with_mask) (simp_all add: all_def)
  have d9: "all ! 9 = v1" and d10: "all ! 10 = v2" by (simp_all add: all_def)
  show ?thesis
    unfolding Let_def s1 s2 d[of 9, simplified] d[of 10, simplified] d9 d10
    using len fmt c1 c2 by (simp add: Let_def)
qed

section \<open>The Danish CPR number\<close>

lemma digit_char_0: "digit_char 0 = CHR ''0''"
  unfolding digit_char_def by code_simp

lemma str_nat_one: "n < 10 \<Longrightarrow> str_nat n = [digit_char n]"
  by (subst str_nat.simps) simp

lemma str_nat_two: "10 \<le> n \<Longrightarrow> n < 100 \<Longrightarrow> str_nat n = [digit_char (n div 10), digit_char (n mod 10)]"
  by (subst str_nat.simps) (simp add: str_nat_one)

lemma fmt02d_two:
  assumes "0 \<le> x" and "x \<le> 99"
  shows "fmt02d x = [digit_char (nat x div 10), digit_char (nat x mod 10)]"
proof (cases "x < 10")
  case True
  with assms show ?thesis
    by (simp add: fmt02d_def str_int_def str_nat_one digit_char_0)
next
  case False
  with assms have "str_nat (nat x) = [digit_char (nat x div 10), digit_char (nat x mod 10)]"
    by (intro str_nat_two) simp_all
  with assms show ?thesis
    by (simp add: fmt02d_def str_int_def)
qed

lemma str_nat_step: "10 \<le> n \<Longrightarrow> str_nat n = str_nat (n div 10) @ [digit_char (n mod 10)]"
  by (subst str_nat.simps) simp

lemma str_nat_four:
  assumes "1000 \<le> n" and "n < 10000"
  shows "str_nat n = [digit_char (n div 1000), digit_char (n div 100 mod 10),
                      digit_char (n div 10 mod 10), digit_char (n mod 10)]"
proof -
  have n10: "10 \<le> n" "10 \<le> n div 10" "10 \<le> n div 10 div 10" "n div 10 div 10 < 100"
    using assms by simp_all
  have d: "n div 10 div 10 = n div 100" "n div 10 div 10 div 10 = n div 1000"
    by (simp_all add: div_mult2_eq[symmetric])
  have "str_nat n = str_nat (n div 10 div 10) @ [digit_char (n div 10 mod 10)] @ [digit_char (n mod 10)]"
    by (simp add: str_nat_step[OF n10(1)] str_nat_step[OF n10(2)])
  also have "str_nat (n div 10 div 10) = [digit_char (n div 10 div 10 div 10), digit_char (n div 10 div 10 mod 10)]"
    using n10 by (intro str_nat_two)
  finally show ?thesis by (simp add: div_mult2_eq[symmetric])
qed

lemma py_int_digit_char: "0 \<le> a \<Longrightarrow> a \<le> 9 \<Longrightarrow> py_int (digit_char (nat a)) = Inr a"
  by (simp add: py_int_def is_ascii_digit_nat digit_value_digit_char)

lemma checksum_products:
  assumes "\<forall>x\<in>set ds. 0 \<le> x \<and> x \<le> 9"
  shows "mapE (\<lambda>(digit, factor). bindE (py_int digit) (\<lambda>d. Inr (d * factor)))
              (zip (map (\<lambda>x. digit_char (nat x)) ds) fs)
         = Inr (map (\<lambda>(d, f). d * f) (zip ds fs))"
  using assms
proof (induction ds arbitrary: fs)
  case Nil
  then show ?case by simp
next
  case (Cons d ds)
  then show ?case
    by (cases fs) (simp_all add: bindE_def py_int_digit_char)
qed

lemma calculate_checksum_digits:
  assumes "\<forall>x\<in>set ds. 0 \<le> x \<and> x \<le> 9"
  shows "calculate_checksum (map (\<lambda>x. digit_char (nat x)) ds) =
           Inr (let total = sum_list (map (\<lambda>(d, f). d * f) (zip ds checksum_factors));
                    checksum = 11 - total mod 11
                in if checksum = 11 then 0 else checksum)"
  unfolding calculate_checksum_def checksum_products[OF assms] by (simp add: bindE_def Let_def)

lemma serial_digits:
  assumes "length drawn = 3" and "\<forall>x\<in>set drawn. (0::int) \<le> x \<and> x \<le> 9"
  shows "concat (map str_int drawn) = map (\<lambda>x. digit_char (nat x)) drawn"
  using assms(2) by (induction drawn) (simp_all add: str_int_digit)

text \<open>Whatever the loop returns was drawn in its last round and has a checksum other than 10.\<close>

lemma generate_serial_checksum_result:
  assumes "generate_serial_checksum century r = Some res"
  shows "case res of
           Inl e \<Rightarrow> True
         | Inr ((serial, checksum), r') \<Rightarrow>
             (\<exists>drawn. length drawn = 3 \<and> (\<forall>x\<in>set drawn. 0 \<le> x \<and> x \<le> 9) \<and>
                serial = map (\<lambda>x. digit_char (nat x)) drawn \<and>
                calculate_checksum (century @ serial) = Inr checksum \<and> checksum \<noteq> 10)"
proof (rule generate_serial_checksum.raw_induct[OF _ assms])
  fix loop century r res
  assume IH: "\<And>c r y. loop c r = Some y \<Longrightarrow>
      (case y of
           Inl e \<Rightarrow> True
         | Inr ((serial, checksum), r') \<Rightarrow>
             (\<exists>drawn. length drawn = 3 \<and> (\<forall>x\<in>set drawn. 0 \<le> x \<and> x \<le> 9) \<and>
                serial = map (\<lambda>x. digit_char (nat x)) drawn \<and>
                calculate_checksum (c @ serial) = Inr checksum \<and> checksum \<noteq> 10))"
    and eq: "(case randint_n 3 0 9 r of
      (drawn, r') \<Rightarrow>
        case calculate_checksum (century @ concat (map str_int drawn)) of
          Inl e \<Rightarrow> Some (Inl e)
        | Inr checksum \<Rightarrow>
            if checksum \<noteq> 10
            then Some (Inr ((concat (map str_int drawn), checksum), r'))
            else loop century r') = Some res"
  obtain drawn r' where dr: "randint_n 3 0 9 r = (drawn, r')" by (cases "randint_n 3 0 9 r")
  from randint_n_props[OF _ dr] have p: "length drawn = 3" "\<forall>x\<in>set drawn. 0 \<le> x \<and> x \<le> 9"
    by simp_all
  note sd = serial_digits[OF p]
  show "case res of
           Inl e \<Rightarrow> True
         | Inr ((serial, checksum), r') \<Rightarrow>
             (\<exists>drawn. length drawn = 3 \<and> (\<forall>x\<in>set drawn. 0 \<le> x \<and> x \<le> 9) \<and>
                serial = map (\<lambda>x. digit_char (nat x)) drawn \<and>
                calculate_checksum (century @ serial) = Inr checksum \<and> checksum \<noteq> 10)"
  proof (cases "calculate_checksum (century @ concat (map str_int drawn))")
    case (Inl e)
    with eq dr show ?thesis by auto
  next
    case (Inr checksum)
    show ?thesis
    proof (cases "checksum = 10")
      case True
      with eq dr Inr have "loop century r' = Some res" by simp
      from IH[OF this] show ?thesis .
    next
      case False
      with eq dr Inr have "res = Inr ((concat (map str_int drawn), checksum), r')" by simp
      with p sd Inr False show ?thesis by auto
    qed
  qed
qed


lemma fmt02d_digits:
  assumes "0 \<le> x" and "x \<le> 99"
  shows "fmt02d x = map (\<lambda>v. digit_char (nat v)) [x div 10, x mod 10]"
  using assms by (simp add: fmt02d_two nat_div_distrib nat_mod_distrib)

lemma last_two_of_year:
  assumes "1000 \<le> y" and "y \<le> 9999"
  shows "(let s = str_int y in drop (length s - 2) s) =
           map (\<lambda>v. digit_char (nat v)) [y div 10 mod 10, y mod 10]"
proof -
  have "str_nat (nat y) = [digit_char (nat y div 1000), digit_char (nat y div 100 mod 10),
                      digit_char (nat y div 10 mod 10), digit_char (nat y mod 10)]"
    using assms by (intro str_nat_four) simp_all
  with assms show ?thesis
    by (simp add: str_int_def Let_def nat_div_distrib nat_mod_distrib)
qed

lemma Datetime_date_range:
  assumes "start \<le> end" and "Datetime_date start end r = Inr (bd, r1)"
  shows "start \<le> year bd \<and> year bd \<le> end \<and> 1 \<le> year bd \<and> year bd \<le> 9999 \<and>
         1 \<le> month bd \<and> month bd \<le> 12 \<and> 1 \<le> day bd \<and> day bd \<le> 28"
proof -
  obtain y ra where y: "randint start end r = (y, ra)" by (cases "randint start end r")
  obtain m rb where m: "randint 1 12 ra = (m, rb)" by (cases "randint 1 12 ra")
  obtain d rc where d: "randint 1 28 rb = (d, rc)" by (cases "randint 1 28 rb")
  from assms(2) y m d have "bd = \<lparr>year = y, month = m, day = d\<rparr>" and "1 \<le> y" and "y \<le> 9999"
    by (auto simp: Datetime_date_def split: if_splits)
  with randint_range[OF assms(1) y] randint_range[OF _ m] randint_range[OF _ d]
  show ?thesis by simp
qed

text \<open>
  C4: every string that \<open>cpr\<close> returns has ten digits; its 10th digit is the checksum
  recomputed from its first nine digits with the weights (4,3,2,7,6,5,4,3,2), that is 11
  minus the weighted sum modulo 11, with 11 written as 0; and the weighted sum modulo 11 is
  not 1 (a serial whose raw checksum is 10 is never returned).
\<close>

theorem cpr_checksum_valid:
  assumes "cpr r = Some (Inr (s, r'))"
  shows "length s = 10 \<and> list_all is_ascii_digit s \<and>
     (let d = (\<lambda>i. int (of_char (s ! i)) - 48);
          total = (\<Sum>i<9. d i * [4, 3, 2, 7, 6, 5, 4, 3, 2] ! i);
          raw = 11 - total mod 11
      in total mod 11 \<noteq> 1 \<and> d 9 = (if raw = 11 then 0 else raw))"
proof -
  from assms obtain bd r1 where dd: "Datetime_date 1900 2099 r = Inr (bd, r1)"
    by (auto simp: cpr_def split: sum.splits)
  from Datetime_date_range[OF _ dd]
  have b: "1900 \<le> year bd" "year bd \<le> 2099" "1 \<le> month bd" "month bd \<le> 12"
    "1 \<le> day bd" "day bd \<le> 28" by simp_all
  define c6 where "c6 = [day bd div 10, day bd mod 10, month bd div 10, month bd mod 10,
                         year bd div 10 mod 10, year bd mod 10]"
  define century where "century = map (\<lambda>v. digit_char (nat v)) c6"
  have c6: "\<forall>x\<in>set c6. 0 \<le> x \<and> x \<le> 9"
    using b by (auto simp: c6_def)
  have cen: "fmt02d (day bd) @ fmt02d (month bd) @ (let s = str_int (year bd) in drop (length s - 2) s) = century"
    using b by (simp add: fmt02d_digits last_two_of_year century_def c6_def)
  from assms dd cen obtain serial k where
    g: "generate_serial_checksum century r1 = Some (Inr ((serial, k), r'))"
    and s: "s = century @ serial @ str_int k"
    by (auto simp: cpr_def Let_def split: option.splits sum.splits prod.splits)
  from generate_serial_checksum_result[OF g] obtain drawn where
    dr: "length drawn = 3" "\<forall>x\<in>set drawn. 0 \<le> x \<and> x \<le> 9"
    "serial = map (\<lambda>x. digit_char (nat x)) drawn"
    and ck: "calculate_checksum (century @ serial) = Inr k" and k10: "k \<noteq> 10"
    by auto
  from dr(1) obtain a0 a1 a2 where drawn: "drawn = [a0, a1, a2]"
    by (auto simp: length_Suc_conv numeral_eq_Suc)
  define ds where "ds = c6 @ drawn"
  have ds: "\<forall>x\<in>set ds. 0 \<le> x \<and> x \<le> 9" using c6 dr(2) by (auto simp: ds_def)
  have cs: "century @ serial = map (\<lambda>x. digit_char (nat x)) ds"
    by (simp add: century_def dr(3) ds_def)
  define total where "total = sum_list (map (\<lambda>(d, f). d * f) (zip ds checksum_factors))"
  from ck have k: "k = (if 11 - total mod 11 = 11 then 0 else 11 - total mod 11)"
    unfolding cs calculate_checksum_digits[OF ds] by (auto simp: Let_def total_def split: if_splits)
  have m: "0 \<le> total mod 11" "total mod 11 < 11" by simp_all
  from k k10 m have t1: "total mod 11 \<noteq> 1" and kr: "0 \<le> k" "k \<le> 9"
    by (auto split: if_splits)
  have s': "s = map (\<lambda>x. digit_char (nat x)) (ds @ [k])"
    using kr by (simp add: s cs str_int_digit)
  have all: "\<forall>x\<in>set (ds @ [k]). 0 \<le> x \<and> x \<le> 9" using ds kr by simp
  have len: "length (ds @ [k]) = 10" by (simp add: ds_def c6_def drawn)
  have d: "int (of_char (s ! i)) - 48 = (ds @ [k]) ! i" if "i < 10" for i
  proof -
    from that len have "(ds @ [k]) ! i \<in> set (ds @ [k])" by (intro nth_mem) simp
    with all have "0 \<le> (ds @ [k]) ! i \<and> (ds @ [k]) ! i \<le> 9" by blast
    moreover have "s ! i = digit_char (nat ((ds @ [k]) ! i))"
      unfolding s' using that len by (intro nth_map) simp
    ultimately show ?thesis by (simp add: digit_value_digit_char)
  qed
  have tot: "(\<Sum>i<9. (int (of_char (s ! i)) - 48) * [4, 3, 2, 7, 6, 5, 4, 3, 2] ! i) = total"
  proof -
    have "(\<Sum>i<9. (int (of_char (s ! i)) - 48) * [4, 3, 2, 7, 6, 5, 4, 3, 2] ! i)
        = (\<Sum>i<9. (ds @ [k]) ! i * [4, 3, 2, 7, 6, 5, 4, 3, 2] ! i)"
      by (rule sum.cong) (simp_all add: d)
    also have "\<dots> = total"
      by (simp add: total_def ds_def c6_def drawn checksum_factors_def lessThan_nat_numeral lessThan_Suc)
    finally show ?thesis .
  qed
  have l: "length s = 10" unfolding s' length_map by (rule len)
  have dig: "list_all is_ascii_digit s"
    unfolding s' using all by (auto simp: list_all_iff is_ascii_digit_nat)
  have d9: "int (of_char (s ! 9)) - 48 = k"
    using d[of 9] len by (simp add: nth_append ds_def c6_def drawn)
  show ?thesis
    unfolding Let_def tot d9 using l dig t1 k by simp
qed

lemma result_of_Inr: "result_of res = Inr x \<Longrightarrow> \<exists>r. res = Inr (x, r)"
  by (cases res) (auto simp: result_of_def)

lemma result_of_Inl: "result_of res = Inl e \<Longrightarrow> res = Inl e"
  by (cases res) (auto simp: result_of_def)

text \<open>The CPR number returned when every draw is the lowest: 1 January 1900, serial 000.\<close>

theorem cpr_checksum_valid_witness:
  "map_option result_of (cpr \<lparr>tape = (\<lambda>i. 0), pos = 0\<rparr>) = Some (Inr ''0101000001'') \<and>
   length ''0101000001'' = 10 \<and> list_all is_ascii_digit ''0101000001'' \<and>
     (let d = (\<lambda>i. int (of_char (''0101000001'' ! i)) - 48);
          total = (\<Sum>i<9. d i * [4, 3, 2, 7, 6, 5, 4, 3, 2] ! i);
          raw = 11 - total mod 11
      in total mod 11 \<noteq> 1 \<and> d 9 = (if raw = 11 then 0 else raw))"
proof -
  have h: "map_option result_of (cpr \<lparr>tape = (\<lambda>i. 0), pos = 0\<rparr>) = Some (Inr ''0101000001'')"
    by code_simp
  then obtain z where "cpr \<lparr>tape = (\<lambda>i. 0), pos = 0\<rparr> = Some z" and "result_of z = Inr ''0101000001''"
    by auto
  then obtain r' where "cpr \<lparr>tape = (\<lambda>i. 0), pos = 0\<rparr> = Some (Inr (''0101000001'', r'))"
    by (auto dest: result_of_Inr)
  from cpr_checksum_valid[OF this] h show ?thesis by simp
qed

subsection \<open>A run that never returns\<close>

lemma randint_n_const:
  "tape r = (\<lambda>i. 1) \<Longrightarrow> randint_n n 0 9 r = (replicate n 1, r\<lparr>pos := pos r + n\<rparr>)"
proof (induction n arbitrary: r)
  case 0
  then show ?case by simp
next
  case (Suc n)
  have "randint 0 9 r = (1, r\<lparr>pos := Suc (pos r)\<rparr>)"
    using Suc.prems by (simp add: randint_def randbelow_def)
  moreover have "randint_n n 0 9 (r\<lparr>pos := Suc (pos r)\<rparr>)
      = (replicate n 1, r\<lparr>pos := Suc (pos r)\<rparr>\<lparr>pos := pos (r\<lparr>pos := Suc (pos r)\<rparr>) + n\<rparr>)"
    using Suc.prems by (intro Suc.IH) simp
  ultimately show ?case by simp
qed

text \<open>
  Nothing bounds the retries: on a tape that keeps yielding the serial 111 for the birth
  date 02-02-01, where the raw checksum is 10, the loop never returns, and neither does
  \<open>cpr\<close>.
\<close>

lemma generate_serial_checksum_never_returns:
  assumes "tape r = (\<lambda>i. 1)"
  shows "generate_serial_checksum ''020201'' r = None"
proof (rule ccontr)
  assume "generate_serial_checksum ''020201'' r \<noteq> None"
  then obtain res where res: "generate_serial_checksum ''020201'' r = Some res" by auto
  have "\<not> (''020201'' = ''020201'' \<and> tape r = (\<lambda>i. 1))"
  proof (rule generate_serial_checksum.raw_induct[OF _ res,
        where P = "\<lambda>century r res. \<not> (century = ''020201'' \<and> tape r = (\<lambda>i. 1))"])
    fix loop century r res
    assume IH: "\<And>c r y. loop c r = Some y \<Longrightarrow> \<not> (c = ''020201'' \<and> tape r = (\<lambda>i. 1))"
      and eq: "(case randint_n 3 0 9 r of
        (drawn, r') \<Rightarrow>
          case calculate_checksum (century @ concat (map str_int drawn)) of
            Inl e \<Rightarrow> Some (Inl e)
          | Inr checksum \<Rightarrow>
              if checksum \<noteq> 10
              then Some (Inr ((concat (map str_int drawn), checksum), r'))
              else loop century r') = Some res"
    show "\<not> (century = ''020201'' \<and> tape r = (\<lambda>i. 1))"
    proof
      assume a: "century = ''020201'' \<and> tape r = (\<lambda>i. 1)"
      then have d: "randint_n 3 0 9 r = (replicate 3 1, r\<lparr>pos := pos r + 3\<rparr>)"
        by (intro randint_n_const) simp
      have c: "calculate_checksum (''020201'' @ concat (map str_int (replicate 3 1))) = Inr 10"
        by code_simp
      from eq a d c have "loop ''020201'' (r\<lparr>pos := pos r + 3\<rparr>) = Some res"
        by simp
      from IH[OF this] a show False by simp
    qed
  qed
  with assms show False by simp
qed

lemma cpr_never_returns: "cpr \<lparr>tape = (\<lambda>i. 1), pos = 0\<rparr> = None"
proof -
  have d: "Datetime_date 1900 2099 \<lparr>tape = (\<lambda>i. 1), pos = 0\<rparr>
             = Inr (\<lparr>year = 1901, month = 2, day = 2\<rparr>, \<lparr>tape = (\<lambda>i. 1), pos = 3\<rparr>)"
    by (simp add: Datetime_date_def randint_def randbelow_def)
  have f: "fmt02d 2 = ''02''" "(let s = str_int 1901 in drop (length s - 2) s) = ''01''"
    by code_simp+
  have "generate_serial_checksum ''020201'' \<lparr>tape = (\<lambda>i. 1), pos = 3\<rparr> = None"
    by (rule generate_serial_checksum_never_returns) simp
  with d f show ?thesis
    by (simp add: cpr_def Let_def)
qed

section \<open>The Italian fiscal code\<close>

lemma bindE_eq_Inr: "bindE m f = Inr y \<longleftrightarrow> (\<exists>x. m = Inr x \<and> f x = Inr y)"
  by (cases m) (simp_all add: bindE_def)

lemma choice_n_length: "choice_n n seq r = Inr (xs, r') \<Longrightarrow> length xs = n"
proof (induction n arbitrary: r xs r')
  case 0
  then show ?case by simp
next
  case (Suc n)
  then show ?case
    by (auto simp: bindE_eq_Inr)
qed

lemma fiscal_code_shape:
  assumes "fiscal_code gender r = Inr (s, r')"
  shows "\<exists>code evens odds. length code = 15 \<and>
           mapE direct_value (slice_step2 (drop 1 code)) = Inr evens \<and>
           mapE remap_value (slice_step2 code) = Inr odds \<and>
           s = code @ [chr ((sum_list evens + sum_list odds) mod 26 + 65)]"
proof -
  from assms obtain p1 p2 p4 p6 evens odds where
    a: "choices ascii_uppercase 3 r = Inr p1"
       "choices ascii_uppercase 3 (snd p1) = Inr p2"
       "choice ''ABCDEHLMPRST'' (snd (randint 0 99 (snd p2))) = Inr p4"
       "choices (ascii_uppercase @ digits) 4 (snd (randint 1 31 (snd p4))) = Inr p6"
    and e: "mapE direct_value (slice_step2 (drop 1 (fst p1 @ fst p2 @ fmt02d (fst (randint 0 99 (snd p2))) @ [fst p4] @
              fmt02d (if gender = Some FEMALE then fst (randint 1 31 (snd p4)) + 40 else fst (randint 1 31 (snd p4))) @ fst p6))) = Inr evens"
       "mapE remap_value (slice_step2 (fst p1 @ fst p2 @ fmt02d (fst (randint 0 99 (snd p2))) @ [fst p4] @
              fmt02d (if gender = Some FEMALE then fst (randint 1 31 (snd p4)) + 40 else fst (randint 1 31 (snd p4))) @ fst p6)) = Inr odds"
       "s = (fst p1 @ fst p2 @ fmt02d (fst (randint 0 99 (snd p2))) @ [fst p4] @
              fmt02d (if gender = Some FEMALE then fst (randint 1 31 (snd p4)) + 40 else fst (randint 1 31 (snd p4))) @ fst p6) @
            [chr ((sum_list evens + sum_list odds) mod 26 + 65)]"
    unfolding fiscal_code_def bindE_eq_Inr Let_def case_prod_beta
    by (elim exE conjE) (simp del: append_assoc drop_append)
  obtain surname r1 where p1: "p1 = (surname, r1)" by (cases p1)
  obtain name r2 where p2: "p2 = (name, r2)" by (cases p2)
  obtain mon r4 where p4: "p4 = (mon, r4)" by (cases p4)
  obtain place r6 where p6: "p6 = (place, r6)" by (cases p6)
  note a = a[unfolded p1 p2 p4 p6 fst_conv snd_conv]
  note e = e[unfolded p1 p2 p4 p6 fst_conv snd_conv]
  let ?y = "fst (randint 0 99 r2)"
  let ?d = "fst (randint 1 31 r4)"
  have y: "0 \<le> ?y \<and> ?y \<le> 99" by (rule randint_range[of 0 99 r2 _ "snd (randint 0 99 r2)"]) simp_all
  have d: "1 \<le> ?d \<and> ?d \<le> 31" by (rule randint_range[of 1 31 r4 _ "snd (randint 1 31 r4)"]) simp_all
  have l: "length surname = 3" "length name = 3" "length place = 4"
    using a by (auto simp: choices_def dest: choice_n_length)
  have f: "length (fmt02d ?y) = 2" "length (fmt02d (if gender = Some FEMALE then ?d + 40 else ?d)) = 2"
    using y d by (simp_all add: fmt02d_two)
  show ?thesis
    apply (rule exI[of _ "surname @ name @ fmt02d ?y @ [mon] @ fmt02d (if gender = Some FEMALE then ?d + 40 else ?d) @ place"])
    apply (rule exI[of _ evens], rule exI[of _ odds])
    using e l f by simp
qed

lemma length15:
  assumes "length (xs :: 'a list) = 15"
  obtains c0 c1 c2 c3 c4 c5 c6 c7 c8 c9 c10 c11 c12 c13 c14
  where "xs = [c0, c1, c2, c3, c4, c5, c6, c7, c8, c9, c10, c11, c12, c13, c14]"
  using assms by (auto simp: length_Suc_conv numeral_eq_Suc)

text \<open>
  C5, amended: in every code that \<open>fiscal_code\<close> returns, sixteen characters long, the
  characters at the odd indices (from 0) of the 15-character base, the slice \<open>code[1::2]\<close>,
  contribute their digit value or \<open>ord(letter) - 55\<close>, the characters at the even indices,
  the slice \<open>code[::2]\<close>, contribute through the remap table indexed by digit value or letter
  offset, and the check letter is \<open>chr((even_sum + odd_sum) mod 26 + 65)\<close>.
\<close>

theorem fiscal_code_check_letter:
  assumes "fiscal_code gender r = Inr (s, r')"
  shows "length s = 16 \<and>
         (\<exists>evens odds.
            mapE direct_value (map ((!) s) [1, 3, 5, 7, 9, 11, 13]) = Inr evens \<and>
            mapE remap_value (map ((!) s) [0, 2, 4, 6, 8, 10, 12, 14]) = Inr odds \<and>
            s ! 15 = chr ((sum_list evens + sum_list odds) mod 26 + 65))"
proof -
  from fiscal_code_shape[OF assms] obtain code evens odds where
    len: "length code = 15"
    and ev: "mapE direct_value (slice_step2 (drop 1 code)) = Inr evens"
    and od: "mapE remap_value (slice_step2 code) = Inr odds"
    and s: "s = code @ [chr ((sum_list evens + sum_list odds) mod 26 + 65)]"
    by blast
  from len obtain c0 c1 c2 c3 c4 c5 c6 c7 c8 c9 c10 c11 c12 c13 c14
    where code: "code = [c0, c1, c2, c3, c4, c5, c6, c7, c8, c9, c10, c11, c12, c13, c14]"
    by (rule length15)
  have e: "map ((!) s) [1, 3, 5, 7, 9, 11, 13] = slice_step2 (drop 1 code)"
    by (simp add: s code)
  have o: "map ((!) s) [0, 2, 4, 6, 8, 10, 12, 14] = slice_step2 code"
    by (simp add: s code)
  have c: "s ! 15 = chr ((sum_list evens + sum_list odds) mod 26 + 65)"
    by (simp add: s code)
  have "length s = 16" by (simp add: s len)
  with e o c ev od show ?thesis by simp
qed

text \<open>The code returned when every draw is the lowest.\<close>

theorem fiscal_code_check_letter_witness:
  "result_of (fiscal_code None \<lparr>tape = (\<lambda>i. 0), pos = 0\<rparr>) = Inr ''AAAAAA00A01AAAAF'' \<and>
   length ''AAAAAA00A01AAAAF'' = 16 \<and>
   (\<exists>evens odds.
      mapE direct_value (map ((!) ''AAAAAA00A01AAAAF'') [1, 3, 5, 7, 9, 11, 13]) = Inr evens \<and>
      mapE remap_value (map ((!) ''AAAAAA00A01AAAAF'') [0, 2, 4, 6, 8, 10, 12, 14]) = Inr odds \<and>
      ''AAAAAA00A01AAAAF'' ! 15 = chr ((sum_list evens + sum_list odds) mod 26 + 65))"
proof -
  have h: "result_of (fiscal_code None \<lparr>tape = (\<lambda>i. 0), pos = 0\<rparr>) = Inr ''AAAAAA00A01AAAAF''"
    by code_simp
  then obtain r' where "fiscal_code None \<lparr>tape = (\<lambda>i. 0), pos = 0\<rparr> = Inr (''AAAAAA00A01AAAAF'', r')"
    by (auto dest: result_of_Inr)
  from fiscal_code_check_letter[OF this] h show ?thesis by blast
qed

text \<open>
  C5, as stated, fails: for the returned code \<open>AAAAAA00A01AAAAF\<close> the rule of the claim gives
  the letter \<open>Q\<close>, not \<open>F\<close> (the code takes the directly valued characters from the odd
  indices and the remapped ones from the even indices), and the table of the code has 10
  entries, not 26.
\<close>

theorem fiscal_code_claimed_letter_differs:
  "result_of (fiscal_code None \<lparr>tape = (\<lambda>i. 0), pos = 0\<rparr>) = Inr (''AAAAAA00A01AAAA'' @ ''F'') \<and>
   claimed_check_letter ''AAAAAA00A01AAAA'' = Inr CHR ''Q'' \<and>
   claimed_check_letter ''AAAAAA00A01AAAA'' \<noteq> Inr CHR ''F'' \<and>
   length remap_table \<noteq> 26"
proof -
  have "result_of (fiscal_code None \<lparr>tape = (\<lambda>i. 0), pos = 0\<rparr>) = Inr (''AAAAAA00A01AAAA'' @ ''F'') \<and>
   claimed_check_letter ''AAAAAA00A01AAAA'' = Inr CHR ''Q'' \<and> length remap_table = 10"
    by code_simp
  then show ?thesis by simp
qed

text \<open>
  C6: the remap table has 10 entries and every letter from \<open>K\<close> to \<open>Z\<close> indexes it out of
  range; when every draw is 11 the surname starts with \<open>L\<close>, at index 0 of the code, and
  \<open>fiscal_code\<close> raises IndexError, whatever the gender.
\<close>

theorem fiscal_code_index_error:
  "length remap_table = 10 \<and>
   map remap_value ''KLMNOPQRSTUVWXYZ'' = replicate 16 (Inl IndexError) \<and>
   result_of (fiscal_code None \<lparr>tape = (\<lambda>i. 11), pos = 0\<rparr>) = Inl IndexError \<and>
   result_of (fiscal_code (Some FEMALE) \<lparr>tape = (\<lambda>i. 11), pos = 0\<rparr>) = Inl IndexError \<and>
   result_of (fiscal_code (Some MALE) \<lparr>tape = (\<lambda>i. 11), pos = 0\<rparr>) = Inl IndexError"
  by code_simp

section \<open>Sessions under a seed\<close>














text \<open>
  Without a seed the environment shows: two runs that differ in nothing but the UUID
  return different addresses from \<open>email(unique=True)\<close>.
\<close>

lemma unseeded_runs_differ:
  "run (\<lambda>s i. s + i) installed \<lparr>entropy = (\<lambda>i. 5), clock_year = 2025, uuid4_hex = ''0123456789abcdef''\<rparr>
       Person (MissingSeed :: nat seed) [Email None True]
     = Some [Returned ''wolf01234567@example.org''] \<and>
   run (\<lambda>s i. s + i) installed \<lparr>entropy = (\<lambda>i. 5), clock_year = 2025, uuid4_hex = ''fedcba9876543210''\<rparr>
       Person (MissingSeed :: nat seed) [Email None True]
     = Some [Returned ''wolffedcba98@example.org'']"
  by code_simp

section \<open>The card number\<close>

lemma luhn_checksum_length: "luhn_checksum num = Inr s \<Longrightarrow> length s = 1"
proof -
  assume "luhn_checksum num = Inr s"
  then obtain t :: int where "s = str_int ((10 - t mod 10) mod 10)"
    by (auto simp: luhn_checksum_def bindE_eq_Inr Let_def)
  moreover have "str_int ((10 - t mod 10) mod 10) = [digit_char (nat ((10 - t mod 10) mod 10))]"
    by (rule str_int_digit) simp_all
  ultimately show ?thesis by simp
qed

lemma choice_member: "choice xs r = Inr (x, r') \<Longrightarrow> x \<in> set xs"
  by (auto simp: choice_def randbelow_def Let_def split: if_splits)

lemma getitem_member: "getitem d k = Inr v \<Longrightarrow> (k, v) \<in> set d"
  by (auto simp: getitem_def split: option.splits dest: map_of_SomeD)

text \<open>
  With prefixes of at most fourteen characters every returned card number has eighteen
  characters: fifteen of the number and three spaces, one fewer than \<open>#### #### #### ####\<close>.
\<close>

lemma credit_card_number_length:
  assumes "credit_card_number ds card_type r = Inr (s, r')"
    and "\<forall>(k, ps)\<in>set (CREDIT_CARD_NETWORKS ds). \<forall>p\<in>set ps. length p \<le> 14"
  shows "length s = 18"
proof -
  from assms(1) obtain m1 :: "member \<times> rng" and prefixes p2 p3 check where
    g: "getitem (CREDIT_CARD_NETWORKS ds) (snd (fst m1)) = Inr prefixes"
    and c: "choice prefixes (snd m1) = Inr p2"
    and d: "choice_n (14 - length (fst p2)) digits (snd p2) = Inr p3"
    and l: "luhn_checksum (fst p2 @ fst p3) = Inr check"
    and s0: "Inr (join '' '' (map (\<lambda>i. take 4 (drop i ((fst p2 @ fst p3) @ check))) [0, 4, 8, 12]), snd p3)
             = (Inr (s, r') :: error + string \<times> rng)"
    unfolding credit_card_number_def bindE_eq_Inr Let_def case_prod_beta
    by (elim exE conjE) (rule that; assumption)
  from s0 have s: "s = join '' '' (map (\<lambda>i. take 4 (drop i ((fst p2 @ fst p3) @ check))) [0, 4, 8, 12])"
    by (simp only: sum.inject prod.inject)
  obtain prefix r2 where p2: "p2 = (prefix, r2)" by (cases p2)
  obtain drawn r3 where p3: "p3 = (drawn, r3)" by (cases p3)
  from c p2 have "prefix \<in> set prefixes" by (auto dest: choice_member)
  with getitem_member[OF g] assms(2) have "length prefix \<le> 14" by fastforce
  moreover from d p2 p3 have "length drawn = 14 - length prefix"
    by (auto dest: choice_n_length)
  moreover from l p2 p3 have "length check = 1" by (auto dest: luhn_checksum_length)
  ultimately have n: "length ((prefix @ drawn) @ check) = 15" by simp
  define number where "number = (prefix @ drawn) @ check"
  from n obtain c0 c1 c2 c3 c4 c5 c6 c7 c8 c9 c10 c11 c12 c13 c14
    where number: "number = [c0, c1, c2, c3, c4, c5, c6, c7, c8, c9, c10, c11, c12, c13, c14]"
    unfolding number_def[symmetric] by (rule length15)
  have "s = join '' '' (map (\<lambda>i. take 4 (drop i number)) [0, 4, 8, 12])"
    unfolding s p2 p3 fst_conv number_def ..
  then show ?thesis unfolding number by simp
qed

text \<open>
  C9: the docstring's example \<open>4455 5299 1152 2450\<close> has sixteen digits, but the code fills
  the prefix up to fourteen characters and appends one check digit. For the card type Visa with the
  prefix \<open>4\<close> and every draw \<open>0\<close> the result has fifteen digits, the last block three; the
  appended digit \<open>2\<close> is not the Luhn check digit of \<open>40000000000000\<close> either, which is 6.
\<close>

theorem credit_card_number_fifteen_digits:
  "result_of (credit_card_number
      \<lparr>ISBN_MASKS = [], ISBN_GROUPS = [], EAN_MASKS = [], IMEI_TACS = [],
       CREDIT_CARD_NETWORKS = [(''Visa'', [''4''])], ISBNFormat = [], EANFormat = [],
       CardType = [(''VISA'', ''Visa'')]\<rparr>
      (Member (''VISA'', ''Visa'')) \<lparr>tape = (\<lambda>i. 0), pos = 0\<rparr>)
     = Inr ''4000 0000 0000 002'' \<and>
   luhn_checksum ''40000000000000'' = Inr ''2'' \<and>
   luhn_spec ''40000000000000'' = Inr ''6''"
  by code_simp


end
